theory Spec2Isabelle
  imports Complex_Main
begin

section \<open>The particle choreography of \<^verbatim>\<open>src/components/ThreeScene.tsx\<close>\<close>

text \<open>
  The development embeds the \<^verbatim>\<open>Particle\<close> class (constructor and \<^verbatim>\<open>update\<close>), the
  photo intake \<^verbatim>\<open>addPhotoToScene\<close> and the layout effect of the \<^verbatim>\<open>ThreeScene\<close>
  component. JavaScript numbers are read as real numbers: \<^verbatim>\<open>Math.sin\<close>, \<^verbatim>\<open>Math.cos\<close>,
  \<^verbatim>\<open>Math.acos\<close>, \<^verbatim>\<open>Math.PI\<close>, \<^verbatim>\<open>Math.floor\<close> are \<^term>\<open>sin\<close>, \<^term>\<open>cos\<close>,
  \<^term>\<open>arccos\<close>, \<^term>\<open>pi\<close>, \<^term>\<open>floor\<close>, and \<^verbatim>\<open>Math.pow(b, 1.3)\<close> is
  \<open>b powr 1.3\<close> (the base is never negative where the code calls it). Rounding of
  IEEE doubles is outside the model. Geometry, materials, the renderer and the scene
  graph carry no numeric state of the choreography and are left out, except for the
  random draws that the constructors of geometries, materials and meshes make.
\<close>

subsection \<open>Enumerations\<close>

text \<open>\<^verbatim>\<open>enum AppMode\<close> of \<^verbatim>\<open>src/types.ts\<close> and the \<^verbatim>\<open>type\<close> field of a particle.\<close>

datatype AppMode = TREE | SCATTER | FOCUS

datatype ParticleType = SHAPE | PHOTO | DUST | STAR | NEEDLE

subsection \<open>Vectors, Euler angles and meshes\<close>

text \<open>
  \<^verbatim>\<open>THREE.Vector3\<close> and \<^verbatim>\<open>THREE.Euler\<close> hold three numbers each (fields \<^verbatim>\<open>x\<close>,
  \<^verbatim>\<open>y\<close>, \<^verbatim>\<open>z\<close>). The vector operations are those of the library:
  \<^verbatim>\<open>set\<close> overwrites the three fields, \<^verbatim>\<open>add\<close> adds fieldwise, and
  \<^verbatim>\<open>lerp(v, alpha)\<close> performs \<^verbatim>\<open>this.x += (v.x - this.x) * alpha\<close> on every field.
\<close>

record Vector3 =
  vx :: real
  vy :: real
  vz :: real

record Euler =
  ex :: real
  ey :: real
  ez :: real

definition V3 :: "real \<Rightarrow> real \<Rightarrow> real \<Rightarrow> Vector3" where
  "V3 a b c = \<lparr>vx = a, vy = b, vz = c\<rparr>"

definition E3 :: "real \<Rightarrow> real \<Rightarrow> real \<Rightarrow> Euler" where
  "E3 a b c = \<lparr>ex = a, ey = b, ez = c\<rparr>"

definition add :: "Vector3 \<Rightarrow> Vector3 \<Rightarrow> Vector3" where
  "add v w = V3 (vx v + vx w) (vy v + vy w) (vz v + vz w)"

definition lerp :: "Vector3 \<Rightarrow> Vector3 \<Rightarrow> real \<Rightarrow> Vector3" where
  "lerp v w alpha =
     V3 (vx v + (vx w - vx v) * alpha)
        (vy v + (vy w - vy v) * alpha)
        (vz v + (vz w - vz v) * alpha)"

text \<open>Euclidean distance between two points, and the norm of a vector.\<close>

definition distanceTo :: "Vector3 \<Rightarrow> Vector3 \<Rightarrow> real" where
  "distanceTo v w = sqrt ((vx v - vx w)\<^sup>2 + (vy v - vy w)\<^sup>2 + (vz v - vz w)\<^sup>2)"

definition vlength :: "Vector3 \<Rightarrow> real" where
  "vlength v = sqrt ((vx v)\<^sup>2 + (vy v)\<^sup>2 + (vz v)\<^sup>2)"

text \<open>Distance of a point from the vertical (y) axis.\<close>

definition axisRadius :: "Vector3 \<Rightarrow> real" where
  "axisRadius v = sqrt ((vx v)\<^sup>2 + (vz v)\<^sup>2)"

text \<open>
  The numeric state of a \<^verbatim>\<open>THREE.Object3D\<close>: position, rotation, scale. The library
  keeps \<^verbatim>\<open>rotation\<close> and \<^verbatim>\<open>quaternion\<close> of an object in step, so the orientation is
  held once, as the Euler angles. A fresh \<^verbatim>\<open>THREE.Mesh\<close> sits at the origin, unrotated,
  at scale one.
\<close>

record Mesh =
  position :: Vector3
  rotation :: Euler
  scale :: Vector3

definition Mesh_new :: Mesh where
  "Mesh_new = \<lparr>position = V3 0 0 0, rotation = E3 0 0 0, scale = V3 1 1 1\<rparr>"

subsection \<open>The random source\<close>

text \<open>
  \<^verbatim>\<open>Math.random()\<close> is a stream of draws: a call returns the head and leaves the rest.
  The library promises every draw to lie in \<open>[0, 1)\<close>; theorems that need it assume
  \<open>unit_draws\<close>.
\<close>

type_synonym rng = "nat \<Rightarrow> real"

definition Math_random :: "rng \<Rightarrow> real \<times> rng" where
  "Math_random r = (r 0, \<lambda>n. r (Suc n))"

definition unit_draws :: "rng \<Rightarrow> bool" where
  "unit_draws r = (\<forall>n. 0 \<le> r n \<and> r n < 1)"

subsection \<open>The class \<^verbatim>\<open>Particle\<close>\<close>

record Particle =
  mesh :: Mesh
  targetPos :: Vector3
  targetRot :: Euler
  targetScale :: Vector3
  ptype :: ParticleType
  twinkleOffset :: real
  twinkleSpeed :: real
  velocity :: Vector3
  baseScale :: real

text \<open>
  The constructor copies the mesh's position, rotation and scale into the targets and
  draws five random numbers, in the order of the source.
\<close>

definition Particle_new :: "Mesh \<Rightarrow> ParticleType \<Rightarrow> rng \<Rightarrow> Particle \<times> rng" where
  "Particle_new m ty r =
     (let (u1, r1) = Math_random r;
          (u2, r2) = Math_random r1;
          (u3, r3) = Math_random r2;
          (u4, r4) = Math_random r3;
          (u5, r5) = Math_random r4
      in (\<lparr>mesh = m,
           targetPos = position m,
           targetRot = rotation m,
           targetScale = scale m,
           ptype = ty,
           twinkleOffset = u1 * pi * 2,
           twinkleSpeed = 0.5 + u2 * 2,
           velocity = V3 ((u3 - 0.5) * 0.02) (- 0.01 - u4 * 0.03) ((u5 - 0.5) * 0.02),
           baseScale = vx (scale m)\<rparr>, r5))"

text \<open>
  \<^verbatim>\<open>Particle.update\<close>. The blending of orientations,
  \<^verbatim>\<open>mesh.quaternion.slerp(new THREE.Quaternion().setFromEuler(targetRot), f)\<close>, is
  library code; it enters as the parameter \<open>slerp\<close>, read through the mesh's Euler
  angles. The parameter \<^verbatim>\<open>isMobile\<close> is not used by the body.
\<close>

type_synonym slerp_fn = "Euler \<Rightarrow> Euler \<Rightarrow> real \<Rightarrow> Euler"

definition lerpFactor :: "AppMode \<Rightarrow> real" where
  "lerpFactor mode = (if mode = FOCUS then 0.08 else 0.05)"

definition update :: "slerp_fn \<Rightarrow> AppMode \<Rightarrow> real \<Rightarrow> bool \<Rightarrow> Particle \<Rightarrow> Particle" where
  "update slerp mode time isMobile p =
     (let f = lerpFactor mode;
          m1 = (mesh p)\<lparr>position := lerp (position (mesh p)) (targetPos p) f\<rparr>;
          m2 = m1\<lparr>rotation := slerp (rotation m1) (targetRot p) f\<rparr>;
          m3 = (if ptype p = SHAPE \<or> ptype p = DUST \<or> ptype p = STAR
                then let s = baseScale p * (0.8 + sin (time * twinkleSpeed p + twinkleOffset p) * 0.3)
                     in m2\<lparr>scale := lerp (scale m2) (V3 s s s) 0.1\<rparr>
                else m2\<lparr>scale := lerp (scale m2) (targetScale p) f\<rparr>);
          tp = (if ptype p = DUST \<and> mode \<noteq> FOCUS
                then let t1 = add (targetPos p) (velocity p)
                     in (if vy t1 < - 20 then t1\<lparr>vy := 30\<rparr> else t1)
                else targetPos p);
          m4 = (if mode = SCATTER
                then m3\<lparr>rotation := (rotation m3)
                          \<lparr>ex := ex (rotation m3) + vx (velocity p) * 5,
                           ey := ey (rotation m3) + vy (velocity p) * 5\<rparr>\<rparr>
                else m3)
      in p\<lparr>mesh := m4, targetPos := tp\<rparr>)"

text \<open>
  The animation loop calls \<^verbatim>\<open>p.update(mode, time, isMobile)\<close> once per frame, with the
  \<^verbatim>\<open>mode\<close> its closure holds and the clock's elapsed time. \<open>ticks\<close> is the effect of
  the first \<open>n\<close> frames on one particle; \<open>clock k\<close> is the time read in frame \<open>k\<close>.
\<close>

fun ticks :: "slerp_fn \<Rightarrow> AppMode \<Rightarrow> (nat \<Rightarrow> real) \<Rightarrow> bool \<Rightarrow> nat \<Rightarrow> Particle \<Rightarrow> Particle" where
  "ticks slerp mode clock isMobile 0 p = p"
| "ticks slerp mode clock isMobile (Suc n) p =
     update slerp mode (clock n) isMobile (ticks slerp mode clock isMobile n p)"

subsection \<open>The scene state and the photo intake\<close>

text \<open>
  \<^verbatim>\<open>sceneRef\<close> is \<^verbatim>\<open>null\<close> until the initialisation effect has built the scene;
  \<^verbatim>\<open>particlesRef\<close> is the pool, in insertion order.
\<close>

datatype Scene = Scene

record SceneState =
  sceneRef :: "Scene option"
  particlesRef :: "Particle list"

text \<open>
  Every three.js geometry, material and mesh gets a UUID when it is constructed, and the
  library's \<^verbatim>\<open>generateUUID\<close> calls \<^verbatim>\<open>Math.random()\<close> four times. The UUID is no part of
  the choreography; the four draws are gone from the source.
\<close>

definition generateUUID :: "rng \<Rightarrow> rng" where
  "generateUUID r =
     (let (d0, r1) = Math_random r;
          (d1, r2) = Math_random r1;
          (d2, r3) = Math_random r2;
          (d3, r4) = Math_random r3
      in r4)"

text \<open>
  \<^verbatim>\<open>addPhotoToScene\<close>: nothing happens without a scene. Otherwise the function builds
  the frame's box geometry, its material and its mesh, then the photo's plane geometry, its
  material and its mesh (six constructors, each with its UUID); the frame mesh is placed by
  three draws and wrapped in a new \<^verbatim>\<open>PHOTO\<close> particle, pushed onto the pool.
\<close>

definition addPhotoToScene :: "SceneState \<Rightarrow> rng \<Rightarrow> SceneState \<times> rng" where
  "addPhotoToScene st r =
     (if sceneRef st = None then (st, r)
      else
        let rFrameGeo = generateUUID r;
            rFrameMat = generateUUID rFrameGeo;
            rFrame = generateUUID rFrameMat;
            rPhotoGeo = generateUUID rFrame;
            rPhotoMat = generateUUID rPhotoGeo;
            rPhoto = generateUUID rPhotoMat;
            (u1, r1) = Math_random rPhoto;
            (u2, r2) = Math_random r1;
            (u3, r3) = Math_random r2;
            frame = Mesh_new\<lparr>position := V3 ((u1 - 0.5) * 50) ((u2 - 0.5) * 50) ((u3 - 0.5) * 50)\<rparr>;
            (p, r4) = Particle_new frame PHOTO r3
        in (st\<lparr>particlesRef := particlesRef st @ [p]\<rparr>, r4))"

subsection \<open>The layout effect\<close>

text \<open>
  \<^verbatim>\<open>pool.filter(P).forEach((p, i) => ...)\<close> visits the particles that satisfy \<open>P\<close> in
  pool order, \<open>i\<close> counting them from zero. The filtered array holds the pool's own
  objects, so what the callback writes shows in the pool: \<open>forEach_where\<close> walks the
  pool, applies the callback to the selected particles and threads the random source.
  With \<open>P\<close> always true it is \<^verbatim>\<open>pool.forEach\<close>.
\<close>

fun forEach_where ::
  "(Particle \<Rightarrow> bool) \<Rightarrow> (Particle \<Rightarrow> nat \<Rightarrow> rng \<Rightarrow> Particle \<times> rng) \<Rightarrow> nat \<Rightarrow>
   Particle list \<Rightarrow> rng \<Rightarrow> Particle list \<times> rng" where
  "forEach_where P f i [] r = ([], r)"
| "forEach_where P f i (p # ps) r =
     (if P p
      then let (p', r') = f p i r;
               (ps', r'') = forEach_where P f (Suc i) ps r'
           in (p' # ps', r'')
      else let (ps', r') = forEach_where P f i ps r
           in (p # ps', r'))"

text \<open>\<^verbatim>\<open>pool.find(P)\<close> followed by a write to the particle found, if any.\<close>

fun update_first :: "(Particle \<Rightarrow> bool) \<Rightarrow> (Particle \<Rightarrow> Particle) \<Rightarrow> Particle list \<Rightarrow> Particle list" where
  "update_first P g [] = []"
| "update_first P g (p # ps) = (if P p then g p # ps else p # update_first P g ps)"

definition of_type :: "ParticleType \<Rightarrow> Particle \<Rightarrow> bool" where
  "of_type ty p = (ptype p = ty)"

definition needles :: "Particle list \<Rightarrow> Particle list" where
  "needles ps = filter (of_type NEEDLE) ps"

definition shapes :: "Particle list \<Rightarrow> Particle list" where
  "shapes ps = filter (of_type SHAPE) ps"

definition photos :: "Particle list \<Rightarrow> Particle list" where
  "photos ps = filter (of_type PHOTO) ps"

text \<open>The callbacks of the three \<^verbatim>\<open>TREE\<close> loops; \<open>n\<close> is the length of the filtered array.\<close>

definition tree_needle :: "nat \<Rightarrow> Particle \<Rightarrow> nat \<Rightarrow> rng \<Rightarrow> Particle \<times> rng" where
  "tree_needle n p i r =
     (let t = real i / real n;
          radius = 9 * (1 - t) powr 1.3;
          angle = t * 50 * pi;
          (u1, r1) = Math_random r;
          (u2, r2) = Math_random r1
      in (p\<lparr>targetPos := V3 (cos angle * radius) (t * 28 - 12) (sin angle * radius),
            targetRot := E3 u1 angle u2\<rparr>, r2))"

definition tree_shape :: "nat \<Rightarrow> Particle \<Rightarrow> nat \<Rightarrow> rng \<Rightarrow> Particle \<times> rng" where
  "tree_shape n p i r =
     (let t = real i / real n;
          radius = 9.5 * (1 - t) powr 1.3;
          angle = t * 35 * pi + pi
      in (p\<lparr>targetPos := V3 (cos angle * radius) (t * 28 - 12) (sin angle * radius)\<rparr>, r))"

definition tree_photo :: "bool \<Rightarrow> nat \<Rightarrow> Particle \<Rightarrow> nat \<Rightarrow> rng \<Rightarrow> Particle \<times> rng" where
  "tree_photo isMobile n p i r =
     (let a = (real i / real n) * pi * 2;
          rad = (if isMobile then 12 else 16);
          (u, r1) = Math_random r
      in (p\<lparr>targetPos := V3 (cos a * rad) (2 + u * 5) (sin a * rad),
            targetRot := E3 0 (- a + pi) 0,
            targetScale := V3 0.6 0.6 0.6\<rparr>, r1))"

text \<open>The callback of the \<^verbatim>\<open>SCATTER\<close> loop: a point on a spherical shell.\<close>

definition scatter_target :: "Particle \<Rightarrow> nat \<Rightarrow> rng \<Rightarrow> Particle \<times> rng" where
  "scatter_target p i r =
     (let (u1, r1) = Math_random r;
          rad = 10 + u1 * 25;
          (u2, r2) = Math_random r1;
          theta = u2 * pi * 2;
          (u3, r3) = Math_random r2;
          phi = arccos (2 * u3 - 1)
      in (p\<lparr>targetPos := V3 (rad * sin phi * cos theta) (rad * sin phi * sin theta) (rad * cos phi)\<rparr>,
          r3))"

text \<open>The callback of the \<^verbatim>\<open>FOCUS\<close> loop over the photos.\<close>

definition focus_photo :: "bool \<Rightarrow> int \<Rightarrow> Particle \<Rightarrow> nat \<Rightarrow> rng \<Rightarrow> Particle \<times> rng" where
  "focus_photo isMobile focusIdx p i r =
     (if int i = focusIdx
      then (p\<lparr>targetPos := V3 0 3 (if isMobile then 30 else 35),
              targetRot := E3 0 0 0,
              targetScale := V3 (if isMobile then 3.5 else 5.5) (if isMobile then 3.5 else 5.5) 5.5\<rparr>, r)
      else let (u1, r1) = Math_random r;
               (u2, r2) = Math_random r1
           in (p\<lparr>targetPos := V3 ((u1 - 0.5) * 80) ((u2 - 0.5) * 80) (- 40)\<rparr>, r2))"

text \<open>
  The effect that runs on every change of \<^verbatim>\<open>mode\<close>. It returns at once on an empty
  pool. \<open>isMobile\<close> is \<^verbatim>\<open>window.innerWidth < 768\<close>, the constrained display.
\<close>

definition layout :: "AppMode \<Rightarrow> bool \<Rightarrow> Particle list \<Rightarrow> rng \<Rightarrow> Particle list \<times> rng" where
  "layout mode isMobile ps r =
     (if ps = [] then (ps, r)
      else
        (case mode of
           TREE \<Rightarrow>
             let ps1 = update_first (of_type STAR) (\<lambda>s. s\<lparr>targetPos := V3 0 16.5 0\<rparr>) ps;
                 (ps2, r2) = forEach_where (of_type NEEDLE) (tree_needle (length (needles ps))) 0 ps1 r;
                 (ps3, r3) = forEach_where (of_type SHAPE) (tree_shape (length (shapes ps))) 0 ps2 r2
             in forEach_where (of_type PHOTO) (tree_photo isMobile (length (photos ps))) 0 ps3 r3
         | SCATTER \<Rightarrow> forEach_where (\<lambda>p. True) scatter_target 0 ps r
         | FOCUS \<Rightarrow>
             let (u, r1) = Math_random r;
                 focusIdx = \<lfloor>u * real (length (photos ps))\<rfloor>;
                 (ps1, r2) = forEach_where (of_type PHOTO) (focus_photo isMobile focusIdx) 0 ps r1
             in (update_first (of_type STAR) (\<lambda>s. s\<lparr>targetPos := V3 0 40 (- 50)\<rparr>) ps1, r2)))"

subsection \<open>Auxiliary notions and sample data\<close>

text \<open>The random source after \<open>k\<close> draws.\<close>

definition drop_draws :: "nat \<Rightarrow> rng \<Rightarrow> rng" where
  "drop_draws k r = (\<lambda>n. r (n + k))"

text \<open>
  \<open>rank P ps j\<close> counts the particles before pool position \<open>j\<close> that satisfy \<open>P\<close>:
  the index \<^verbatim>\<open>i\<close> that \<^verbatim>\<open>pool.filter(P).forEach((p, i) => ...)\<close> passes for \<open>ps ! j\<close>.
\<close>

definition rank :: "(Particle \<Rightarrow> bool) \<Rightarrow> Particle list \<Rightarrow> nat \<Rightarrow> nat" where
  "rank P ps j = length (filter P (take j ps))"

text \<open>
  Sample data for the concrete instances below: an orientation blend that leaves the mesh
  as it is, a source whose every draw is one half, and particles of each kind.
\<close>

definition slerp_hold :: slerp_fn where
  "slerp_hold q t f = q"

definition half_draws :: rng where
  "half_draws n = 1 / 2"

definition needle0 :: Particle where
  "needle0 = \<lparr>mesh = Mesh_new, targetPos = V3 1 0 0, targetRot = E3 0 0 0,
     targetScale = V3 1 1 1, ptype = NEEDLE, twinkleOffset = 0, twinkleSpeed = 1,
     velocity = V3 0 (- 0.025) 0, baseScale = 1\<rparr>"

definition dust0 :: Particle where
  "dust0 = \<lparr>mesh = Mesh_new, targetPos = V3 0 (- 19.99) 0, targetRot = E3 0 0 0,
     targetScale = V3 1 1 1, ptype = DUST, twinkleOffset = 0, twinkleSpeed = 1,
     velocity = V3 0 (- 0.025) 0, baseScale = 1\<rparr>"

definition star0 :: Particle where
  "star0 = \<lparr>mesh = Mesh_new, targetPos = V3 0 0 0, targetRot = E3 0 0 0,
     targetScale = V3 1 1 1, ptype = STAR, twinkleOffset = 0, twinkleSpeed = 1,
     velocity = V3 0 (- 0.025) 0, baseScale = 1\<rparr>"

definition shape0 :: Particle where
  "shape0 = \<lparr>mesh = Mesh_new, targetPos = V3 0 0 0, targetRot = E3 0 0 0,
     targetScale = V3 1 1 1, ptype = SHAPE, twinkleOffset = 0, twinkleSpeed = 1,
     velocity = V3 0 (- 0.025) 0, baseScale = 1\<rparr>"

definition photo0 :: Particle where
  "photo0 = \<lparr>mesh = Mesh_new, targetPos = V3 0 0 0, targetRot = E3 0 0 0,
     targetScale = V3 1 1 1, ptype = PHOTO, twinkleOffset = 0, twinkleSpeed = 1,
     velocity = V3 0 (- 0.025) 0, baseScale = 1\<rparr>"

text \<open>
  Two pools: one star, three needles and two ornaments; and four photo frames.
\<close>

definition small_pool :: "Particle list" where
  "small_pool = [star0, needle0, needle0, needle0, shape0, shape0]"

definition photo_pool :: "Particle list" where
  "photo_pool = [photo0, photo0, photo0, photo0]"

text \<open>A scene state with the scene built and the small pool in it.\<close>

definition scene_ready :: SceneState where
  "scene_ready = \<lparr>sceneRef = Some Scene, particlesRef = small_pool\<rparr>"

text \<open>A source whose first two draws are zero and whose later draws are one half.\<close>

definition step_draws :: rng where
  "step_draws n = (if n < 2 then 0 else 1 / 2)"

section \<open>The integrator: \<^verbatim>\<open>Particle.update\<close>\<close>

subsection \<open>What one update writes\<close>

lemma update_targetPos:
  "targetPos (update slerp mode time mob p) =
     (if ptype p = DUST \<and> mode \<noteq> FOCUS
      then let t1 = add (targetPos p) (velocity p) in (if vy t1 < - 20 then t1\<lparr>vy := 30\<rparr> else t1)
      else targetPos p)"
  by (simp add: update_def Let_def)

lemma update_position:
  "position (mesh (update slerp mode time mob p)) =
     lerp (position (mesh p)) (targetPos p) (lerpFactor mode)"
  by (simp add: update_def Let_def)

lemma update_ptype: "ptype (update slerp mode time mob p) = ptype p"
  by (simp add: update_def Let_def)

lemma ticks_ptype: "ptype (ticks slerp mode clock mob n p) = ptype p"
  by (induction n) (simp_all add: update_ptype)

lemma dust_floor:
  "ptype p = DUST \<Longrightarrow> mode \<noteq> FOCUS \<Longrightarrow> - 20 \<le> vy (targetPos (update slerp mode time mob p))"
  by (simp add: update_targetPos Let_def)

lemma ticks_targetPos_fixed:
  "ptype p \<noteq> DUST \<or> mode = FOCUS \<Longrightarrow> targetPos (ticks slerp mode clock mob n p) = targetPos p"
  by (induction n) (auto simp: update_targetPos ticks_ptype)

subsection \<open>Falling snow\<close>

text \<open>
  Claim C6. For a \<^verbatim>\<open>DUST\<close> particle and a mode other than \<^verbatim>\<open>FOCUS\<close>, one update adds
  the drift velocity to the target position and, where the new target height is below
  \<open>-20\<close>, sets the height to \<open>30\<close> within the same update. So the target height is at
  least \<open>-20\<close> after the update, and after every frame from the first on.
\<close>

theorem dust_recycling:
  assumes "ptype p = DUST" and "mode \<noteq> FOCUS"
  shows "targetPos (update slerp mode time mob p) =
           (let t1 = add (targetPos p) (velocity p) in if vy t1 < - 20 then t1\<lparr>vy := 30\<rparr> else t1)
         \<and> - 20 \<le> vy (targetPos (update slerp mode time mob p))
         \<and> (\<forall>n. - 20 \<le> vy (targetPos (ticks slerp mode clock mob (Suc n) p)))"
proof -
  have a: "targetPos (update slerp mode time mob p) =
           (let t1 = add (targetPos p) (velocity p) in if vy t1 < - 20 then t1\<lparr>vy := 30\<rparr> else t1)"
    using assms by (simp add: update_targetPos)
  have b: "- 20 \<le> vy (targetPos (update slerp mode time mob p))"
    using assms by (rule dust_floor)
  have c: "- 20 \<le> vy (targetPos (ticks slerp mode clock mob (Suc n) p))" for n
    using assms by (simp add: dust_floor ticks_ptype)
  from a b c show ?thesis by blast
qed

text \<open>
  A snow mote whose target is at height \<open>-19.99\<close> and that falls by \<open>0.025\<close> per frame
  crosses \<open>-20\<close> in the next update and is put back at height \<open>30\<close>.
\<close>

theorem dust_recycling_witness:
  "ptype dust0 = DUST \<and> TREE \<noteq> FOCUS
   \<and> vy (targetPos (update slerp_hold TREE 0 False dust0)) = 30
   \<and> - 20 \<le> vy (targetPos (update slerp_hold TREE 0 False dust0))"
proof -
  have h: "ptype dust0 = DUST" "TREE \<noteq> FOCUS"
    by (simp_all add: dust0_def)
  have "add (targetPos dust0) (velocity dust0) = V3 0 (- 20.015) 0"
    by (simp add: dust0_def add_def V3_def)
  with dust_recycling [OF h, of slerp_hold 0 False "\<lambda>k. 0"] h show ?thesis
    by (simp add: V3_def)
qed

subsection \<open>Exponential smoothing of the position\<close>

lemma lerpFactor_bounds:
  "0 \<le> lerpFactor mode" "lerpFactor mode \<le> 1" "0 \<le> 1 - lerpFactor mode" "1 - lerpFactor mode < 1"
  by (simp_all add: lerpFactor_def)

lemma lerp_self: "lerp v v f = v"
  by (simp add: lerp_def V3_def)

lemma distanceTo_nonneg: "0 \<le> distanceTo v w"
  by (simp add: distanceTo_def)

text \<open>One interpolation step scales the distance to the target by \<open>1 - f\<close>.\<close>

lemma distanceTo_lerp:
  assumes "0 \<le> f" "f \<le> 1"
  shows "distanceTo (lerp v w f) w = (1 - f) * distanceTo v w"
proof -
  have e: "(a + (b - a) * f - b)\<^sup>2 = (1 - f)\<^sup>2 * (a - b)\<^sup>2" for a b :: real
    by (simp add: power2_eq_square algebra_simps)
  have "distanceTo (lerp v w f) w =
        sqrt ((1 - f)\<^sup>2 * ((vx v - vx w)\<^sup>2 + (vy v - vy w)\<^sup>2 + (vz v - vz w)\<^sup>2))"
    by (simp add: distanceTo_def lerp_def V3_def e distrib_left)
  also have "\<dots> = (1 - f) * distanceTo v w"
    using assms by (simp add: real_sqrt_mult distanceTo_def)
  finally show ?thesis .
qed

lemma ticks_distance_step:
  assumes "ptype p \<noteq> DUST \<or> mode = FOCUS"
  shows "distanceTo (position (mesh (ticks slerp mode clock mob (Suc n) p))) (targetPos p) =
         (1 - lerpFactor mode) * distanceTo (position (mesh (ticks slerp mode clock mob n p))) (targetPos p)"
proof -
  have "position (mesh (ticks slerp mode clock mob (Suc n) p)) =
        lerp (position (mesh (ticks slerp mode clock mob n p))) (targetPos p) (lerpFactor mode)"
    using assms by (simp add: update_position ticks_targetPos_fixed)
  then show ?thesis
    by (simp only: distanceTo_lerp [OF lerpFactor_bounds(1) lerpFactor_bounds(2)])
qed

lemma ticks_distance_power:
  assumes "ptype p \<noteq> DUST \<or> mode = FOCUS"
  shows "distanceTo (position (mesh (ticks slerp mode clock mob n p))) (targetPos p) =
         (1 - lerpFactor mode) ^ n * distanceTo (position (mesh p)) (targetPos p)"
proof (induction n)
  case 0
  show ?case by simp
next
  case (Suc n)
  show ?case
    by (simp only: ticks_distance_step [OF assms] Suc.IH power_Suc mult.assoc)
qed

text \<open>
  Claim C2. Let the target position of a particle stay fixed between frames: the particle
  is not \<^verbatim>\<open>DUST\<close>, or the mode is \<^verbatim>\<open>FOCUS\<close>, and no layout pass intervenes. Then every
  update moves the position toward the target by interpolation with factor \<open>0.08\<close> in
  \<^verbatim>\<open>FOCUS\<close> mode and \<open>0.05\<close> otherwise and leaves the target as it is; the distance
  to the target is multiplied by one minus the factor in every frame, never grows, and
  tends to zero as the number of frames grows.
\<close>

theorem smoothing_converges:
  assumes "ptype p \<noteq> DUST \<or> mode = FOCUS"
  shows "position (mesh (update slerp mode time mob p)) =
           lerp (position (mesh p)) (targetPos p) (if mode = FOCUS then 0.08 else 0.05)
       \<and> targetPos (update slerp mode time mob p) = targetPos p
       \<and> (\<forall>n. distanceTo (position (mesh (ticks slerp mode clock mob (Suc n) p))) (targetPos p) =
              (1 - (if mode = FOCUS then 0.08 else 0.05)) *
              distanceTo (position (mesh (ticks slerp mode clock mob n p))) (targetPos p))
       \<and> (\<forall>n. distanceTo (position (mesh (ticks slerp mode clock mob (Suc n) p))) (targetPos p) \<le>
              distanceTo (position (mesh (ticks slerp mode clock mob n p))) (targetPos p))
       \<and> (\<lambda>n. distanceTo (position (mesh (ticks slerp mode clock mob n p))) (targetPos p))
            \<longlonglongrightarrow> 0"
proof -
  let ?d = "\<lambda>n. distanceTo (position (mesh (ticks slerp mode clock mob n p))) (targetPos p)"
  have f: "lerpFactor mode = (if mode = FOCUS then 0.08 else 0.05)"
    by (simp add: lerpFactor_def)
  have a: "position (mesh (update slerp mode time mob p)) =
           lerp (position (mesh p)) (targetPos p) (if mode = FOCUS then 0.08 else 0.05)"
    by (simp only: update_position f)
  have b: "targetPos (update slerp mode time mob p) = targetPos p"
    using assms by (auto simp: update_targetPos)
  have c: "?d (Suc n) = (1 - (if mode = FOCUS then 0.08 else 0.05)) * ?d n" for n
    using ticks_distance_step [OF assms, of slerp clock mob n] by (simp only: f)
  have d: "?d (Suc n) \<le> ?d n" for n
  proof -
    have "(1 - lerpFactor mode) * ?d n \<le> 1 * ?d n"
      by (rule mult_right_mono) (simp_all add: lerpFactor_bounds distanceTo_nonneg)
    then show ?thesis
      by (simp only: ticks_distance_step [OF assms] mult_1)
  qed
  have "(\<lambda>n. (1 - lerpFactor mode) ^ n) \<longlonglongrightarrow> 0"
    by (rule LIMSEQ_realpow_zero) (simp_all add: lerpFactor_bounds)
  then have "(\<lambda>n. (1 - lerpFactor mode) ^ n * distanceTo (position (mesh p)) (targetPos p))
             \<longlonglongrightarrow> 0"
    by (rule tendsto_mult_left_zero)
  then have e: "?d \<longlonglongrightarrow> 0"
    by (simp only: ticks_distance_power [OF assms])
  from a b c d e show ?thesis by blast
qed

text \<open>A needle at the origin with its target one unit away, in \<^verbatim>\<open>TREE\<close> mode.\<close>

theorem smoothing_converges_witness:
  "ptype needle0 \<noteq> DUST \<and>
   position (mesh (update slerp_hold TREE 0 False needle0)) =
     lerp (position (mesh needle0)) (targetPos needle0) (if TREE = FOCUS then 0.08 else 0.05) \<and>
   distanceTo (position (mesh (ticks slerp_hold TREE (\<lambda>k. 0) False (Suc 0) needle0))) (targetPos needle0)
     \<le> distanceTo (position (mesh (ticks slerp_hold TREE (\<lambda>k. 0) False 0 needle0))) (targetPos needle0)"
proof -
  have h0: "ptype needle0 \<noteq> DUST"
    by (simp add: needle0_def)
  then have h: "ptype needle0 \<noteq> DUST \<or> TREE = FOCUS"
    by blast
  from h0 smoothing_converges [OF h, of slerp_hold 0 False "\<lambda>k. 0"] show ?thesis
    by blast
qed

section \<open>The constructor\<close>

lemma ticks_rest:
  assumes "ptype p \<noteq> DUST \<or> mode = FOCUS" and "position (mesh p) = targetPos p"
  shows "position (mesh (ticks slerp mode clock mob n p)) = targetPos p"
  by (induction n)
    (simp_all add: assms(2) update_position ticks_targetPos_fixed [OF assms(1)] lerp_self)

text \<open>
  Claim C10, as amended. A newly constructed particle of any type has its target position,
  target orientation and target scale equal to the mesh's position, rotation and scale at
  construction, and its base scale equal to the mesh's scale (its \<^verbatim>\<open>x\<close> component); it
  starts at distance zero from its target and the first update does not displace it. Later
  updates do not displace it either as long as the particle is not \<^verbatim>\<open>DUST\<close> or the mode
  is \<^verbatim>\<open>FOCUS\<close>.
\<close>

theorem constructor_targets:
  "targetPos (fst (Particle_new m ty r)) = position m
   \<and> targetRot (fst (Particle_new m ty r)) = rotation m
   \<and> targetScale (fst (Particle_new m ty r)) = scale m
   \<and> baseScale (fst (Particle_new m ty r)) = vx (scale m)
   \<and> mesh (fst (Particle_new m ty r)) = m
   \<and> ptype (fst (Particle_new m ty r)) = ty
   \<and> distanceTo (position (mesh (fst (Particle_new m ty r)))) (targetPos (fst (Particle_new m ty r))) = 0
   \<and> position (mesh (update slerp mode time mob (fst (Particle_new m ty r)))) = position m
   \<and> (ty \<noteq> DUST \<or> mode = FOCUS \<longrightarrow>
        (\<forall>n. position (mesh (ticks slerp mode clock mob n (fst (Particle_new m ty r)))) = position m))"
proof -
  let ?p = "fst (Particle_new m ty r)"
  have a: "targetPos ?p = position m" "targetRot ?p = rotation m" "targetScale ?p = scale m"
    "baseScale ?p = vx (scale m)" "mesh ?p = m" "ptype ?p = ty"
    by (simp_all add: Particle_new_def Math_random_def)
  have b: "distanceTo (position (mesh ?p)) (targetPos ?p) = 0"
    by (simp only: a) (simp add: distanceTo_def)
  have c: "position (mesh (update slerp mode time mob ?p)) = position m"
    by (simp only: update_position a lerp_self)
  have d: "position (mesh (ticks slerp mode clock mob n ?p)) = position m"
    if "ty \<noteq> DUST \<or> mode = FOCUS" for n
    using ticks_rest [of ?p mode slerp clock mob n] that by (simp only: a)
  from a b c d show ?thesis by blast
qed

text \<open>A freshly built needle rests at the origin through the first three frames.\<close>

theorem constructor_targets_witness:
  "NEEDLE \<noteq> DUST
   \<and> targetPos (fst (Particle_new Mesh_new NEEDLE half_draws)) = position Mesh_new
   \<and> position (mesh (ticks slerp_hold TREE (\<lambda>k. 0) False 3 (fst (Particle_new Mesh_new NEEDLE half_draws))))
       = position Mesh_new"
proof -
  have h: "NEEDLE \<noteq> DUST \<or> TREE = FOCUS"
    by simp
  from constructor_targets [of Mesh_new NEEDLE half_draws slerp_hold TREE 0 False "\<lambda>k. 0"] h
  show ?thesis by blast
qed

text \<open>
  The claim as stated, for every type and for the first frames, fails on snow: the target
  of a fresh \<^verbatim>\<open>DUST\<close> particle drifts in the first frame of \<^verbatim>\<open>TREE\<close> mode, and the
  second frame moves the mesh after it.
\<close>

theorem fresh_dust_displaced:
  "position (mesh (ticks slerp_hold TREE (\<lambda>k. 0) False 2 (fst (Particle_new Mesh_new DUST half_draws))))
     \<noteq> position (mesh (fst (Particle_new Mesh_new DUST half_draws)))"
  by (simp add: numeral_2_eq_2 update_def Particle_new_def Math_random_def half_draws_def
      Mesh_new_def lerp_def add_def V3_def lerpFactor_def Let_def)

section \<open>The layout effect\<close>

subsection \<open>Loops over a partition of the pool\<close>

lemma forEach_where_Cons_fst:
  "fst (forEach_where P f i (p # ps) r) =
     (if P p then fst (f p i r) # fst (forEach_where P f (Suc i) ps (snd (f p i r)))
      else p # fst (forEach_where P f i ps r))"
  by (simp add: case_prod_beta)

lemma forEach_where_Cons_snd:
  "snd (forEach_where P f i (p # ps) r) =
     (if P p then snd (forEach_where P f (Suc i) ps (snd (f p i r)))
      else snd (forEach_where P f i ps r))"
  by (simp add: case_prod_beta)

lemmas forEach_where_Cons = forEach_where_Cons_fst forEach_where_Cons_snd

declare forEach_where.simps(2) [simp del]

lemma forEach_where_length: "length (fst (forEach_where P f i ps r)) = length ps"
  by (induction ps arbitrary: i r) (simp_all add: forEach_where_Cons)

lemma forEach_where_nth:
  "j < length ps \<Longrightarrow> fst (forEach_where P f i ps r) ! j =
     (if P (ps ! j)
      then fst (f (ps ! j) (i + rank P ps j) (snd (forEach_where P f i (take j ps) r)))
      else ps ! j)"
proof (induction ps arbitrary: i j r)
  case Nil
  then show ?case by simp
next
  case (Cons p ps)
  show ?case
  proof (cases j)
    case 0
    then show ?thesis by (simp add: rank_def forEach_where_Cons)
  next
    case (Suc k)
    with Cons.prems have k: "k < length ps" by simp
    show ?thesis
      using Cons.IH [OF k] Suc by (simp add: rank_def forEach_where_Cons)
  qed
qed

lemma forEach_where_draws:
  assumes "\<And>p i r. snd (f p i r) = drop_draws k r"
  shows "snd (forEach_where P f i ps r) = drop_draws (k * length (filter P ps)) r"
proof (induction ps arbitrary: i r)
  case Nil
  show ?case by (simp add: drop_draws_def)
next
  case (Cons p ps)
  have "drop_draws (k * length (filter P ps)) (drop_draws k r) =
        drop_draws (k + k * length (filter P ps)) r"
    by (simp add: drop_draws_def ac_simps)
  then show ?case
    by (simp add: forEach_where_Cons assms Cons)
qed

lemma forEach_where_draws_cong:
  assumes "\<And>p q i r. snd (f p i r) = snd (f q i r)" and "map P xs = map P ys"
  shows "snd (forEach_where P f i xs r) = snd (forEach_where P f i ys r)"
  using assms(2)
proof (induction xs arbitrary: ys i r)
  case Nil
  then show ?case by simp
next
  case (Cons x xs)
  then obtain y ys' where ys: "ys = y # ys'" "P x = P y" "map P xs = map P ys'"
    by (cases ys) auto
  have "snd (f x i r) = snd (f y i r)" by (rule assms(1))
  then show ?case
    using Cons.IH [OF ys(3)] ys by (simp add: forEach_where_Cons)
qed

lemma update_first_length: "length (update_first P g ps) = length ps"
  by (induction ps) auto

lemma update_first_nth:
  "j < length ps \<Longrightarrow> update_first P g ps ! j =
     (if P (ps ! j) \<and> rank P ps j = 0 then g (ps ! j) else ps ! j)"
proof (induction ps arbitrary: j)
  case Nil
  then show ?case by simp
next
  case (Cons p ps)
  show ?case
  proof (cases j)
    case 0
    then show ?thesis by (simp add: rank_def)
  next
    case (Suc k)
    with Cons.prems have k: "k < length ps" by simp
    show ?thesis
      using Cons.IH [OF k] Suc by (simp add: rank_def)
  qed
qed

lemma of_type_iff [simp]: "of_type ty p \<longleftrightarrow> ptype p = ty"
  by (simp add: of_type_def)

lemma of_type_fun: "of_type ty = (\<lambda>p. ptype p = ty)"
  by (simp add: fun_eq_iff)

lemma forEach_where_types:
  assumes "\<And>p i r. ptype (fst (f p i r)) = ptype p"
  shows "map ptype (fst (forEach_where P f i ps r)) = map ptype ps"
  by (induction ps arbitrary: i r) (simp_all add: forEach_where_Cons assms)

lemma update_first_types:
  assumes "\<And>p. ptype (g p) = ptype p"
  shows "map ptype (update_first P g ps) = map ptype ps"
  by (induction ps) (simp_all add: assms)

lemma same_types_filter:
  assumes "map ptype xs = map ptype ys"
  shows "length (filter (of_type ty) xs) = length (filter (of_type ty) ys)"
proof -
  have "length (filter (of_type ty) zs) = length (filter (\<lambda>t. t = ty) (map ptype zs))" for zs
    by (simp add: comp_def of_type_fun)
  then show ?thesis by (simp only: assms)
qed

lemma same_types_rank:
  assumes "map ptype xs = map ptype ys"
  shows "rank (of_type ty) xs j = rank (of_type ty) ys j"
proof -
  from assms have "map ptype (take j xs) = map ptype (take j ys)"
    by (simp only: take_map [symmetric])
  then show ?thesis
    unfolding rank_def by (rule same_types_filter)
qed

lemma same_types_nth:
  assumes "map ptype xs = map ptype ys" and "j < length xs"
  shows "ptype (xs ! j) = ptype (ys ! j)"
proof -
  from assms have "length ys = length xs" by (metis length_map)
  with assms(2) have "ptype (xs ! j) = map ptype xs ! j" "ptype (ys ! j) = map ptype ys ! j"
    by simp_all
  then show ?thesis by (simp only: assms(1))
qed

lemma forEach_of_type_other:
  "j < length ps \<Longrightarrow> ptype (ps ! j) \<noteq> ty \<Longrightarrow> fst (forEach_where (of_type ty) f i ps r) ! j = ps ! j"
  by (simp add: forEach_where_nth)

lemma forEach_of_type_same:
  assumes "\<And>p i r. snd (f p i r) = drop_draws k r" and "j < length ps" and "ptype (ps ! j) = ty"
  shows "fst (forEach_where (of_type ty) f i ps r) ! j =
         fst (f (ps ! j) (i + rank (of_type ty) ps j) (drop_draws (k * rank (of_type ty) ps j) r))"
  using assms(2,3) by (simp add: forEach_where_nth forEach_where_draws [of f k, OF assms(1)] rank_def)

lemma update_first_other:
  "j < length ps \<Longrightarrow> ptype (ps ! j) \<noteq> ty \<Longrightarrow> update_first (of_type ty) g ps ! j = ps ! j"
  by (simp add: update_first_nth)

lemma tree_needle_fst:
  "fst (tree_needle n p i r) =
     p\<lparr>targetPos := V3 (cos (real i / real n * 50 * pi) * (9 * (1 - real i / real n) powr 1.3))
                       (real i / real n * 28 - 12)
                       (sin (real i / real n * 50 * pi) * (9 * (1 - real i / real n) powr 1.3)),
       targetRot := E3 (r 0) (real i / real n * 50 * pi) (r 1)\<rparr>"
  by (simp add: tree_needle_def Math_random_def Let_def)

lemma tree_needle_snd: "snd (tree_needle n p i r) = drop_draws 2 r"
  by (simp add: tree_needle_def Math_random_def Let_def drop_draws_def)

lemma tree_shape_fst:
  "fst (tree_shape n p i r) =
     p\<lparr>targetPos := V3 (cos (real i / real n * 35 * pi + pi) * (9.5 * (1 - real i / real n) powr 1.3))
                       (real i / real n * 28 - 12)
                       (sin (real i / real n * 35 * pi + pi) * (9.5 * (1 - real i / real n) powr 1.3))\<rparr>"
  by (simp add: tree_shape_def Let_def)

lemma tree_shape_snd: "snd (tree_shape n p i r) = drop_draws 0 r"
  by (simp add: tree_shape_def Let_def drop_draws_def)

lemma tree_photo_fst:
  "fst (tree_photo mob n p i r) =
     p\<lparr>targetPos := V3 (cos (real i / real n * pi * 2) * (if mob then 12 else 16))
                       (2 + r 0 * 5)
                       (sin (real i / real n * pi * 2) * (if mob then 12 else 16)),
       targetRot := E3 0 (- (real i / real n * pi * 2) + pi) 0,
       targetScale := V3 0.6 0.6 0.6\<rparr>"
  by (simp add: tree_photo_def Math_random_def Let_def)

lemma tree_photo_snd: "snd (tree_photo mob n p i r) = drop_draws 1 r"
  by (simp add: tree_photo_def Math_random_def Let_def drop_draws_def)

lemma scatter_target_fst:
  "fst (scatter_target p i r) =
     p\<lparr>targetPos := V3 ((10 + r 0 * 25) * sin (arccos (2 * r 2 - 1)) * cos (r 1 * pi * 2))
                       ((10 + r 0 * 25) * sin (arccos (2 * r 2 - 1)) * sin (r 1 * pi * 2))
                       ((10 + r 0 * 25) * cos (arccos (2 * r 2 - 1)))\<rparr>"
  by (simp add: scatter_target_def Math_random_def Let_def numeral_2_eq_2)

lemma scatter_target_snd: "snd (scatter_target p i r) = drop_draws 3 r"
  by (simp add: scatter_target_def Math_random_def Let_def drop_draws_def numeral_3_eq_3)

lemma callbacks_ptype:
  "ptype (fst (tree_needle n p i r)) = ptype p"
  "ptype (fst (tree_shape n p i r)) = ptype p"
  "ptype (fst (tree_photo mob n p i r)) = ptype p"
  "ptype (fst (scatter_target p i r)) = ptype p"
  "ptype (fst (focus_photo mob k p i r)) = ptype p"
  by (simp_all add: tree_needle_fst tree_shape_fst tree_photo_fst scatter_target_fst
      focus_photo_def Math_random_def Let_def)

subsection \<open>The \<^verbatim>\<open>TREE\<close> pass, particle by particle\<close>

lemma drop_draws_0: "drop_draws 0 r = r"
  by (simp add: drop_draws_def)

lemma forEach_of_type_nth:
  assumes "\<And>p i r. snd (f p i r) = drop_draws k r" and "j < length ps"
  shows "fst (forEach_where (of_type ty) f i ps r) ! j =
         (if ptype (ps ! j) = ty
          then fst (f (ps ! j) (i + rank (of_type ty) ps j) (drop_draws (k * rank (of_type ty) ps j) r))
          else ps ! j)"
  using forEach_of_type_same [of f k j ps ty i r, OF assms(1) assms(2)]
    forEach_of_type_other [of j ps ty f i r, OF assms(2)]
  by simp

lemma layout_TREE_fst:
  "fst (layout TREE mob ps r) =
     fst (forEach_where (of_type PHOTO) (tree_photo mob (length (photos ps))) 0
       (fst (forEach_where (of_type SHAPE) (tree_shape (length (shapes ps))) 0
         (fst (forEach_where (of_type NEEDLE) (tree_needle (length (needles ps))) 0
           (update_first (of_type STAR) (\<lambda>s. s\<lparr>targetPos := V3 0 16.5 0\<rparr>) ps) r))
         (drop_draws (2 * length (needles ps)) r)))
       (drop_draws (2 * length (needles ps)) r))"
proof (cases "ps = []")
  case True
  then show ?thesis by (simp add: layout_def)
next
  case False
  define ps1 where "ps1 = update_first (of_type STAR) (\<lambda>s. s\<lparr>targetPos := V3 0 16.5 0\<rparr>) ps"
  define n where "n = length (needles ps)"
  have t1: "map ptype ps1 = map ptype ps"
    unfolding ps1_def by (rule update_first_types) simp
  have "length (filter (of_type NEEDLE) ps1) = n"
    unfolding n_def needles_def by (rule same_types_filter [OF t1])
  then have r2: "snd (forEach_where (of_type NEEDLE) (tree_needle n) 0 ps1 r) = drop_draws (2 * n) r"
    by (simp only: forEach_where_draws [of _ 2, OF tree_needle_snd])
  have r3: "snd (forEach_where (of_type SHAPE) (tree_shape m) 0 qs r') = r'" for m qs r'
    by (simp add: forEach_where_draws [of _ 0, OF tree_shape_snd] drop_draws_0)
  have "fst (layout TREE mob ps r) =
     fst (forEach_where (of_type PHOTO) (tree_photo mob (length (photos ps))) 0
       (fst (forEach_where (of_type SHAPE) (tree_shape (length (shapes ps))) 0
         (fst (forEach_where (of_type NEEDLE) (tree_needle n) 0 ps1 r))
         (snd (forEach_where (of_type NEEDLE) (tree_needle n) 0 ps1 r))))
       (snd (forEach_where (of_type SHAPE) (tree_shape (length (shapes ps))) 0
         (fst (forEach_where (of_type NEEDLE) (tree_needle n) 0 ps1 r))
         (snd (forEach_where (of_type NEEDLE) (tree_needle n) 0 ps1 r)))))"
    using False unfolding ps1_def n_def by (simp add: layout_def case_prod_beta Let_def)
  then show ?thesis
    unfolding r3 r2 unfolding ps1_def n_def .
qed

lemma layout_TREE_nth:
  assumes "j < length ps"
  shows "fst (layout TREE mob ps r) ! j =
     (if ptype (ps ! j) = PHOTO
      then fst (tree_photo mob (length (photos ps)) (ps ! j) (rank (of_type PHOTO) ps j)
                 (drop_draws (2 * length (needles ps) + rank (of_type PHOTO) ps j) r))
      else if ptype (ps ! j) = SHAPE
      then fst (tree_shape (length (shapes ps)) (ps ! j) (rank (of_type SHAPE) ps j) r)
      else if ptype (ps ! j) = NEEDLE
      then fst (tree_needle (length (needles ps)) (ps ! j) (rank (of_type NEEDLE) ps j)
                 (drop_draws (2 * rank (of_type NEEDLE) ps j) r))
      else if ptype (ps ! j) = STAR \<and> rank (of_type STAR) ps j = 0
      then (ps ! j)\<lparr>targetPos := V3 0 16.5 0\<rparr>
      else ps ! j)"
proof -
  define n where "n = length (needles ps)"
  define r2 where "r2 = drop_draws (2 * n) r"
  define g where "g = (\<lambda>s::Particle. s\<lparr>targetPos := V3 0 16.5 0\<rparr>)"
  define fN where "fN = tree_needle n"
  define fS where "fS = tree_shape (length (shapes ps))"
  define fP where "fP = tree_photo mob (length (photos ps))"
  define ps1 where "ps1 = update_first (of_type STAR) g ps"
  define ps2 where "ps2 = fst (forEach_where (of_type NEEDLE) fN 0 ps1 r)"
  define ps3 where "ps3 = fst (forEach_where (of_type SHAPE) fS 0 ps2 r2)"
  define ps4 where "ps4 = fst (forEach_where (of_type PHOTO) fP 0 ps3 r2)"
  have dN: "snd (fN p i r') = drop_draws 2 r'" for p i r'
    unfolding fN_def by (rule tree_needle_snd)
  have dS: "snd (fS p i r') = drop_draws 0 r'" for p i r'
    unfolding fS_def by (rule tree_shape_snd)
  have dP: "snd (fP p i r') = drop_draws 1 r'" for p i r'
    unfolding fP_def by (rule tree_photo_snd)
  have t1: "map ptype ps1 = map ptype ps"
    unfolding ps1_def g_def by (rule update_first_types) simp
  have t2: "map ptype ps2 = map ptype ps"
    unfolding ps2_def fN_def by (simp only: forEach_where_types [OF callbacks_ptype(1)] t1)
  have t3: "map ptype ps3 = map ptype ps"
    unfolding ps3_def fS_def by (simp only: forEach_where_types [OF callbacks_ptype(2)] t2)
  have l1: "j < length ps1"
    using assms by (simp add: ps1_def update_first_length)
  have l2: "j < length ps2"
    using l1 by (simp add: ps2_def forEach_where_length)
  have l3: "j < length ps3"
    using l2 by (simp add: ps3_def forEach_where_length)
  have p1: "ptype (ps1 ! j) = ptype (ps ! j)" by (rule same_types_nth [OF t1 l1])
  have p2: "ptype (ps2 ! j) = ptype (ps ! j)" by (rule same_types_nth [OF t2 l2])
  have p3: "ptype (ps3 ! j) = ptype (ps ! j)" by (rule same_types_nth [OF t3 l3])
  have s1: "ps1 ! j = (if ptype (ps ! j) = STAR \<and> rank (of_type STAR) ps j = 0
                       then g (ps ! j) else ps ! j)"
    using assms by (simp add: ps1_def update_first_nth)
  have s2: "ps2 ! j = (if ptype (ps ! j) = NEEDLE
                       then fst (fN (ps1 ! j) (rank (of_type NEEDLE) ps j)
                                  (drop_draws (2 * rank (of_type NEEDLE) ps j) r))
                       else ps1 ! j)"
    unfolding ps2_def
    by (simp add: forEach_of_type_nth [of fN 2, OF dN l1] p1 same_types_rank [OF t1])
  have s3: "ps3 ! j = (if ptype (ps ! j) = SHAPE
                       then fst (fS (ps2 ! j) (rank (of_type SHAPE) ps j) r2)
                       else ps2 ! j)"
    unfolding ps3_def
    by (simp add: forEach_of_type_nth [of fS 0, OF dS l2] p2 same_types_rank [OF t2] drop_draws_0)
  have "drop_draws k r2 = drop_draws (2 * n + k) r" for k
    by (simp add: r2_def drop_draws_def ac_simps)
  then have s4: "ps4 ! j = (if ptype (ps ! j) = PHOTO
                       then fst (fP (ps3 ! j) (rank (of_type PHOTO) ps j)
                                  (drop_draws (2 * n + rank (of_type PHOTO) ps j) r))
                       else ps3 ! j)"
    unfolding ps4_def
    by (simp add: forEach_of_type_nth [of fP 1, OF dP l3] p3 same_types_rank [OF t3])
  have indep: "fst (fS p i r') = fst (fS p i r)" for p i r'
    by (simp add: fS_def tree_shape_fst)
  have "fst (layout TREE mob ps r) = ps4"
    unfolding ps4_def ps3_def ps2_def ps1_def fP_def fS_def fN_def g_def r2_def n_def
    by (rule layout_TREE_fst)
  then have "fst (layout TREE mob ps r) ! j =
     (if ptype (ps ! j) = PHOTO
      then fst (fP (ps ! j) (rank (of_type PHOTO) ps j)
                 (drop_draws (2 * n + rank (of_type PHOTO) ps j) r))
      else if ptype (ps ! j) = SHAPE
      then fst (fS (ps ! j) (rank (of_type SHAPE) ps j) r)
      else if ptype (ps ! j) = NEEDLE
      then fst (fN (ps ! j) (rank (of_type NEEDLE) ps j)
                 (drop_draws (2 * rank (of_type NEEDLE) ps j) r))
      else if ptype (ps ! j) = STAR \<and> rank (of_type STAR) ps j = 0
      then g (ps ! j)
      else ps ! j)"
    using indep by (simp add: s4 s3 s2 s1)
  then show ?thesis
    unfolding fP_def fS_def fN_def g_def n_def .
qed

lemma layout_TREE_types: "map ptype (fst (layout TREE mob ps r)) = map ptype ps"
proof -
  have "map ptype (update_first (of_type STAR) (\<lambda>s. s\<lparr>targetPos := V3 0 16.5 0\<rparr>) ps) = map ptype ps"
    by (rule update_first_types) simp
  then show ?thesis
    by (simp only: layout_TREE_fst forEach_where_types [OF callbacks_ptype(1)]
      forEach_where_types [OF callbacks_ptype(2)] forEach_where_types [OF callbacks_ptype(3)])
qed

subsection \<open>The \<^verbatim>\<open>SCATTER\<close> and \<^verbatim>\<open>FOCUS\<close> passes, particle by particle\<close>

lemma rank_True: "j \<le> length ps \<Longrightarrow> rank (\<lambda>p. True) ps j = j"
  by (simp add: rank_def)

lemma layout_SCATTER_nth:
  assumes "j < length ps"
  shows "fst (layout SCATTER mob ps r) ! j = fst (scatter_target (ps ! j) j (drop_draws (3 * j) r))"
proof -
  have "fst (layout SCATTER mob ps r) = fst (forEach_where (\<lambda>p. True) scatter_target 0 ps r)"
    by (simp add: layout_def)
  moreover have "snd (forEach_where (\<lambda>p. True) scatter_target 0 (take j ps) r) = drop_draws (3 * j) r"
    using assms by (simp add: forEach_where_draws [of _ 3, OF scatter_target_snd])
  ultimately show ?thesis
    using assms by (simp add: forEach_where_nth rank_True)
qed

lemma layout_SCATTER_types: "map ptype (fst (layout SCATTER mob ps r)) = map ptype ps"
proof -
  have "fst (layout SCATTER mob ps r) = fst (forEach_where (\<lambda>p. True) scatter_target 0 ps r)"
    by (simp add: layout_def)
  then show ?thesis
    by (simp only: forEach_where_types [OF callbacks_ptype(4)])
qed

lemma layout_FOCUS_fst:
  "fst (layout FOCUS mob ps r) =
     update_first (of_type STAR) (\<lambda>s. s\<lparr>targetPos := V3 0 40 (- 50)\<rparr>)
       (fst (forEach_where (of_type PHOTO)
              (focus_photo mob \<lfloor>r 0 * real (length (photos ps))\<rfloor>) 0 ps (drop_draws 1 r)))"
proof -
  have "(\<lambda>n. r (Suc n)) = drop_draws 1 r"
    by (simp add: drop_draws_def)
  then show ?thesis
    by (cases "ps = []") (simp_all add: layout_def Math_random_def case_prod_beta Let_def)
qed

lemma layout_FOCUS_types: "map ptype (fst (layout FOCUS mob ps r)) = map ptype ps"
proof -
  have "map ptype (update_first (of_type STAR) (\<lambda>s. s\<lparr>targetPos := V3 0 40 (- 50)\<rparr>) qs) = map ptype qs"
    for qs by (rule update_first_types) simp
  then show ?thesis
    by (simp only: layout_FOCUS_fst forEach_where_types [OF callbacks_ptype(5)])
qed

lemma layout_FOCUS_nth:
  assumes "j < length ps"
  shows "fst (layout FOCUS mob ps r) ! j =
     (if ptype (ps ! j) = PHOTO
      then fst (focus_photo mob \<lfloor>r 0 * real (length (photos ps))\<rfloor> (ps ! j) (rank (of_type PHOTO) ps j)
                 (snd (forEach_where (of_type PHOTO)
                        (focus_photo mob \<lfloor>r 0 * real (length (photos ps))\<rfloor>) 0 (take j ps)
                        (drop_draws 1 r))))
      else if ptype (ps ! j) = STAR \<and> rank (of_type STAR) ps j = 0
      then (ps ! j)\<lparr>targetPos := V3 0 40 (- 50)\<rparr>
      else ps ! j)"
proof -
  define f where "f = focus_photo mob \<lfloor>r 0 * real (length (photos ps))\<rfloor>"
  define g where "g = (\<lambda>s::Particle. s\<lparr>targetPos := V3 0 40 (- 50)\<rparr>)"
  define ps1 where "ps1 = fst (forEach_where (of_type PHOTO) f 0 ps (drop_draws 1 r))"
  have t1: "map ptype ps1 = map ptype ps"
    unfolding ps1_def f_def by (rule forEach_where_types [OF callbacks_ptype(5)])
  have l1: "j < length ps1"
    using assms by (simp add: ps1_def forEach_where_length)
  have p1: "ptype (ps1 ! j) = ptype (ps ! j)"
    by (rule same_types_nth [OF t1 l1])
  have s1: "ps1 ! j = (if ptype (ps ! j) = PHOTO
                       then fst (f (ps ! j) (rank (of_type PHOTO) ps j)
                                  (snd (forEach_where (of_type PHOTO) f 0 (take j ps) (drop_draws 1 r))))
                       else ps ! j)"
    using assms by (simp add: ps1_def forEach_where_nth)
  have s2: "update_first (of_type STAR) g ps1 ! j =
              (if ptype (ps ! j) = STAR \<and> rank (of_type STAR) ps j = 0 then g (ps1 ! j) else ps1 ! j)"
    using l1 by (simp add: update_first_nth p1 same_types_rank [OF t1])
  have "fst (layout FOCUS mob ps r) = update_first (of_type STAR) g ps1"
    unfolding ps1_def f_def g_def by (rule layout_FOCUS_fst)
  then have "fst (layout FOCUS mob ps r) ! j =
     (if ptype (ps ! j) = PHOTO
      then fst (f (ps ! j) (rank (of_type PHOTO) ps j)
                 (snd (forEach_where (of_type PHOTO) f 0 (take j ps) (drop_draws 1 r))))
      else if ptype (ps ! j) = STAR \<and> rank (of_type STAR) ps j = 0
      then g (ps ! j)
      else ps ! j)"
    by (simp add: s2 s1)
  then show ?thesis
    unfolding f_def g_def .
qed

subsection \<open>Partitions before and after a pass\<close>

lemma filter_nth_position2:
  "map P xs = map P ys \<Longrightarrow> i < length (filter P xs) \<Longrightarrow>
   \<exists>j<length xs. P (xs ! j) \<and> length (filter P (take j xs)) = i
      \<and> filter P xs ! i = xs ! j \<and> filter P ys ! i = ys ! j"
proof (induction xs arbitrary: ys i)
  case Nil
  then show ?case by simp
next
  case (Cons x xs)
  from Cons.prems(1) obtain y ys' where ys: "ys = y # ys'" "P x = P y" "map P xs = map P ys'"
    by (cases ys) auto
  show ?case
  proof (cases "P x")
    case True
    show ?thesis
    proof (cases i)
      case 0
      with True ys show ?thesis by (intro exI [of _ 0]) simp
    next
      case (Suc k)
      with Cons.prems True have "k < length (filter P xs)" by simp
      from Cons.IH [OF ys(3) this] obtain j where
        "j < length xs" "P (xs ! j)" "length (filter P (take j xs)) = k"
        "filter P xs ! k = xs ! j" "filter P ys' ! k = ys' ! j"
        by blast
      with True Suc ys show ?thesis by (intro exI [of _ "Suc j"]) simp
    qed
  next
    case False
    with Cons.prems have "i < length (filter P xs)" by simp
    from Cons.IH [OF ys(3) this] obtain j where
      "j < length xs" "P (xs ! j)" "length (filter P (take j xs)) = i"
      "filter P xs ! i = xs ! j" "filter P ys' ! i = ys' ! j"
      by blast
    with False ys show ?thesis by (intro exI [of _ "Suc j"]) simp
  qed
qed

lemma same_types_pattern:
  assumes "map ptype xs = map ptype ys"
  shows "map (of_type ty) xs = map (of_type ty) ys"
proof -
  have "map (of_type ty) zs = map (\<lambda>t. t = ty) (map ptype zs)" for zs
    by (simp add: of_type_fun comp_def)
  then show ?thesis by (simp only: assms)
qed

text \<open>The particle at index i of a partition, before and after a type-preserving pass.\<close>

lemma partition_position:
  assumes "map ptype ps = map ptype ps'" and "i < length (filter (of_type ty) ps)"
  shows "\<exists>j<length ps. ptype (ps ! j) = ty \<and> rank (of_type ty) ps j = i
           \<and> filter (of_type ty) ps ! i = ps ! j \<and> filter (of_type ty) ps' ! i = ps' ! j"
  using filter_nth_position2 [OF same_types_pattern [OF assms(1)] assms(2)]
  by (simp add: rank_def)

lemma layout_TREE_needles:
  assumes "i < length (needles ps)"
  shows "needles (fst (layout TREE mob ps r)) ! i =
         fst (tree_needle (length (needles ps)) (needles ps ! i) i (drop_draws (2 * i) r))"
proof -
  from partition_position [OF layout_TREE_types [symmetric], of i NEEDLE ps mob r] assms
  obtain j where j: "j < length ps" "ptype (ps ! j) = NEEDLE" "rank (of_type NEEDLE) ps j = i"
    "needles ps ! i = ps ! j" "needles (fst (layout TREE mob ps r)) ! i = fst (layout TREE mob ps r) ! j"
    unfolding needles_def by blast
  show ?thesis
    by (simp add: j layout_TREE_nth [OF j(1)])
qed

lemma layout_TREE_photos:
  assumes "i < length (photos ps)"
  shows "photos (fst (layout TREE mob ps r)) ! i =
         fst (tree_photo mob (length (photos ps)) (photos ps ! i) i
               (drop_draws (2 * length (needles ps) + i) r))"
proof -
  from partition_position [OF layout_TREE_types [symmetric], of i PHOTO ps mob r] assms
  obtain j where j: "j < length ps" "ptype (ps ! j) = PHOTO" "rank (of_type PHOTO) ps j = i"
    "photos ps ! i = ps ! j" "photos (fst (layout TREE mob ps r)) ! i = fst (layout TREE mob ps r) ! j"
    unfolding photos_def by blast
  show ?thesis
    by (simp add: j layout_TREE_nth [OF j(1)])
qed

lemma layout_TREE_counts:
  "length (needles (fst (layout TREE mob ps r))) = length (needles ps)"
  "length (shapes (fst (layout TREE mob ps r))) = length (shapes ps)"
  "length (photos (fst (layout TREE mob ps r))) = length (photos ps)"
  unfolding needles_def shapes_def photos_def
  by (rule same_types_filter [OF layout_TREE_types])+

subsection \<open>The sample data\<close>

lemma sample_types:
  "ptype star0 = STAR" "ptype needle0 = NEEDLE" "ptype shape0 = SHAPE" "ptype photo0 = PHOTO"
  "ptype dust0 = DUST"
  by (simp_all add: star0_def needle0_def shape0_def photo0_def dust0_def)

lemma small_pool_needles: "needles small_pool = [needle0, needle0, needle0]"
  by (simp add: small_pool_def needles_def sample_types)

lemma photo_pool_photos: "photos photo_pool = photo_pool"
  by (simp add: photo_pool_def photos_def sample_types)

lemma half_draws_unit: "unit_draws half_draws"
  by (simp add: unit_draws_def half_draws_def)

subsection \<open>The needle cone of the \<^verbatim>\<open>TREE\<close> pass\<close>

lemma axisRadius_polar: "0 \<le> R \<Longrightarrow> axisRadius (V3 (cos a * R) h (sin a * R)) = R"
proof -
  assume R: "0 \<le> R"
  have "(cos a * R)\<^sup>2 + (sin a * R)\<^sup>2 = R\<^sup>2 * ((sin a)\<^sup>2 + (cos a)\<^sup>2)"
    by (simp only: power_mult_distrib distrib_left mult.commute add.commute)
  then have "(cos a * R)\<^sup>2 + (sin a * R)\<^sup>2 = R\<^sup>2"
    by (simp only: sin_cos_squared_add mult_1_right)
  with R show ?thesis
    by (simp add: axisRadius_def V3_def)
qed

lemma needle_target:
  assumes "i < length (needles ps)"
  shows "targetPos (needles (fst (layout TREE mob ps r)) ! i) =
           V3 (cos (real i / real (length (needles ps)) * 50 * pi)
                 * (9 * (1 - real i / real (length (needles ps))) powr 1.3))
              (real i / real (length (needles ps)) * 28 - 12)
              (sin (real i / real (length (needles ps)) * 50 * pi)
                 * (9 * (1 - real i / real (length (needles ps))) powr 1.3))"
  by (simp add: layout_TREE_needles [OF assms] tree_needle_fst)

text \<open>
  Claim C1, as amended. In \<^verbatim>\<open>TREE\<close> mode the needle at index \<open>i\<close> of a needle partition of
  size \<open>n > 0\<close>, with \<open>t = i / n\<close>, gets its target at radius \<open>9 (1 - t)\<^sup>1\<^sup>.\<^sup>3\<close>
  from the vertical axis, at angle \<open>50 \<pi> t\<close> and at height \<open>28 t - 12\<close>. The needle at
  index \<open>0\<close> has target height \<open>-12\<close> and radius \<open>9\<close>. The needle at index \<open>n - 1\<close> has
  target height \<open>16 - 28 / n\<close> and radius \<open>9 (1 / n)\<^sup>1\<^sup>.\<^sup>3\<close>, which is positive and at most
  \<open>9 / n\<close>: height and radius approach \<open>16\<close> and \<open>0\<close> as the partition grows.
\<close>

theorem tree_needle_cone:
  assumes "i < length (needles ps)"
  shows "let n = length (needles ps);
             t = real i / real n;
             qs = needles (fst (layout TREE mob ps r))
         in length qs = n
          \<and> targetPos (qs ! i) = V3 (cos (t * 50 * pi) * (9 * (1 - t) powr 1.3)) (t * 28 - 12)
                                   (sin (t * 50 * pi) * (9 * (1 - t) powr 1.3))
          \<and> axisRadius (targetPos (qs ! i)) = 9 * (1 - t) powr 1.3
          \<and> vy (targetPos (qs ! 0)) = - 12
          \<and> axisRadius (targetPos (qs ! 0)) = 9
          \<and> vy (targetPos (qs ! (n - 1))) = 16 - 28 / real n
          \<and> axisRadius (targetPos (qs ! (n - 1))) = 9 * (1 / real n) powr 1.3
          \<and> 0 < axisRadius (targetPos (qs ! (n - 1)))
          \<and> axisRadius (targetPos (qs ! (n - 1))) \<le> 9 / real n"
proof -
  define n where "n = length (needles ps)"
  define qs where "qs = needles (fst (layout TREE mob ps r))"
  define t where "t = real i / real n"
  from assms have "0 < n" unfolding n_def by (rule le_less_trans [OF le0])
  then have n: "0 < n" "0 < real n" by simp_all
  have len: "length qs = n"
    unfolding qs_def n_def by (rule layout_TREE_counts)
  have pos: "targetPos (qs ! k) =
        V3 (cos (real k / real n * 50 * pi) * (9 * (1 - real k / real n) powr 1.3))
           (real k / real n * 28 - 12)
           (sin (real k / real n * 50 * pi) * (9 * (1 - real k / real n) powr 1.3))" if "k < n" for k
    using that unfolding qs_def n_def by (rule needle_target)
  have rad: "axisRadius (targetPos (qs ! k)) = 9 * (1 - real k / real n) powr 1.3" if "k < n" for k
    by (simp only: pos [OF that]) (rule axisRadius_polar, simp)
  have a: "targetPos (qs ! i) = V3 (cos (t * 50 * pi) * (9 * (1 - t) powr 1.3)) (t * 28 - 12)
                                   (sin (t * 50 * pi) * (9 * (1 - t) powr 1.3))"
    unfolding t_def using assms by (intro pos) (simp add: n_def)
  have b: "axisRadius (targetPos (qs ! i)) = 9 * (1 - t) powr 1.3"
    unfolding t_def using assms by (intro rad) (simp add: n_def)
  have c: "vy (targetPos (qs ! 0)) = - 12"
    unfolding pos [OF n(1)] by (simp add: V3_def)
  have d: "axisRadius (targetPos (qs ! 0)) = 9"
    unfolding rad [OF n(1)] by simp
  have last: "n - 1 < n" using n by simp
  have frac: "real (n - 1) / real n = 1 - 1 / real n"
    using n by (simp add: field_simps)
  have "vy (targetPos (qs ! (n - 1))) = real (n - 1) / real n * 28 - 12"
    by (simp only: pos [OF last]) (simp add: V3_def)
  then have e: "vy (targetPos (qs ! (n - 1))) = 16 - 28 / real n"
    by (simp only: frac) (simp add: algebra_simps)
  have f: "axisRadius (targetPos (qs ! (n - 1))) = 9 * (1 / real n) powr 1.3"
    by (simp only: rad [OF last] frac) simp
  have g: "0 < axisRadius (targetPos (qs ! (n - 1)))"
    unfolding f using n by simp
  have "(1 / real n) powr 1.3 \<le> (1 / real n) powr 1"
    using n by (intro powr_mono') simp_all
  then have h: "axisRadius (targetPos (qs ! (n - 1))) \<le> 9 / real n"
    unfolding f using n by simp
  from len a b c d e f g h show ?thesis
    unfolding Let_def n_def [symmetric] qs_def [symmetric] t_def [symmetric] by blast
qed

text \<open>The three needles of the small pool: the last one has target height \<open>16 - 28 / 3\<close>.\<close>

theorem tree_needle_cone_witness:
  "2 < length (needles small_pool)
   \<and> length (needles (fst (layout TREE False small_pool half_draws))) = 3
   \<and> vy (targetPos (needles (fst (layout TREE False small_pool half_draws)) ! 0)) = - 12
   \<and> axisRadius (targetPos (needles (fst (layout TREE False small_pool half_draws)) ! 0)) = 9
   \<and> vy (targetPos (needles (fst (layout TREE False small_pool half_draws)) ! 2)) = 16 - 28 / 3"
proof -
  have n: "length (needles small_pool) = 3"
    by (simp add: small_pool_needles)
  then have h: "2 < length (needles small_pool)"
    by simp
  from tree_needle_cone [OF h, of False half_draws] h show ?thesis
    unfolding Let_def n by (simp add: V3_def)
qed

text \<open>
  The claim as stated puts the needle at index \<open>n - 1\<close> near height \<open>16\<close> and radius \<open>0\<close>
  for every partition size. In a partition of one needle it sits at height \<open>-12\<close> and
  radius \<open>9\<close>; in a partition of three it sits at height \<open>20 / 3\<close>.
\<close>

theorem needle_apex_small_pool:
  "vy (targetPos (needles (fst (layout TREE False [needle0] half_draws))
                    ! (length (needles [needle0]) - 1))) = - 12
   \<and> axisRadius (targetPos (needles (fst (layout TREE False [needle0] half_draws))
                    ! (length (needles [needle0]) - 1))) = 9
   \<and> vy (targetPos (needles (fst (layout TREE False small_pool half_draws))
                    ! (length (needles small_pool) - 1))) = 20 / 3"
proof -
  have n1: "needles [needle0] = [needle0]"
    by (simp add: needles_def sample_types)
  have "targetPos (needles (fst (layout TREE False [needle0] half_draws)) ! 0) = V3 9 (- 12) 0"
    using needle_target [of 0 "[needle0]" False half_draws] by (simp add: n1)
  then have a: "vy (targetPos (needles (fst (layout TREE False [needle0] half_draws)) ! 0)) = - 12"
    "axisRadius (targetPos (needles (fst (layout TREE False [needle0] half_draws)) ! 0)) = 9"
    by (simp_all add: V3_def axisRadius_def)
  have "vy (targetPos (needles (fst (layout TREE False small_pool half_draws)) ! 2)) = 2 / 3 * 28 - 12"
    using needle_target [of 2 small_pool False half_draws] by (simp add: small_pool_needles V3_def)
  then have b: "vy (targetPos (needles (fst (layout TREE False small_pool half_draws)) ! 2)) = 20 / 3"
    by simp
  have i1: "length (needles [needle0]) - 1 = 0"
    by (simp add: n1)
  have i2: "length (needles small_pool) - 1 = 2"
    by (simp add: small_pool_needles)
  from a b show ?thesis
    unfolding i1 i2 by blast
qed

subsection \<open>The photo ring of the \<^verbatim>\<open>TREE\<close> pass\<close>

lemma photo_target:
  assumes "i < length (photos ps)"
  shows "photos (fst (layout TREE mob ps r)) ! i =
     (photos ps ! i)
       \<lparr>targetPos := V3 (cos (real i / real (length (photos ps)) * pi * 2) * (if mob then 12 else 16))
                        (2 + r (2 * length (needles ps) + i) * 5)
                        (sin (real i / real (length (photos ps)) * pi * 2) * (if mob then 12 else 16)),
        targetRot := E3 0 (- (real i / real (length (photos ps)) * pi * 2) + pi) 0,
        targetScale := V3 0.6 0.6 0.6\<rparr>"
  by (simp add: layout_TREE_photos [OF assms] tree_photo_fst drop_draws_def)

text \<open>
  Claim C8, as amended. In \<^verbatim>\<open>TREE\<close> mode the photo at index \<open>i\<close> of a photo partition of size
  \<open>n > 0\<close> gets its target on a ring of radius \<open>12\<close> on constrained displays and \<open>16\<close>
  otherwise around the vertical axis, at the angle \<open>a = (i / n) 2 \<pi>\<close>, with yaw
  \<open>\<pi> - a\<close> (and no pitch or roll) and target scale \<open>0.6\<close>. The target height is \<open>2\<close> plus
  five times a random draw.
\<close>

theorem tree_photo_ring:
  assumes "i < length (photos ps)"
  shows "let n = length (photos ps);
             a = real i / real n * pi * 2;
             rad = (if mob then 12 else 16);
             qs = photos (fst (layout TREE mob ps r))
         in length qs = n
          \<and> vx (targetPos (qs ! i)) = cos a * rad
          \<and> vz (targetPos (qs ! i)) = sin a * rad
          \<and> axisRadius (targetPos (qs ! i)) = rad
          \<and> vy (targetPos (qs ! i)) = 2 + r (2 * length (needles ps) + i) * 5
          \<and> targetRot (qs ! i) = E3 0 (pi - a) 0
          \<and> targetScale (qs ! i) = V3 0.6 0.6 0.6"
proof -
  define n where "n = length (photos ps)"
  define a where "a = real i / real n * pi * 2"
  define rad :: real where "rad = (if mob then 12 else 16)"
  define qs where "qs = photos (fst (layout TREE mob ps r))"
  have len: "length qs = n"
    unfolding qs_def n_def by (rule layout_TREE_counts)
  have q: "qs ! i = (photos ps ! i)
       \<lparr>targetPos := V3 (cos a * rad) (2 + r (2 * length (needles ps) + i) * 5) (sin a * rad),
        targetRot := E3 0 (- a + pi) 0,
        targetScale := V3 0.6 0.6 0.6\<rparr>"
    unfolding qs_def a_def n_def rad_def by (rule photo_target [OF assms])
  have rad0: "0 \<le> rad" by (simp add: rad_def)
  have r: "axisRadius (targetPos (qs ! i)) = rad"
    unfolding q using axisRadius_polar [OF rad0] by simp
  have "vx (targetPos (qs ! i)) = cos a * rad" "vz (targetPos (qs ! i)) = sin a * rad"
    "vy (targetPos (qs ! i)) = 2 + r (2 * length (needles ps) + i) * 5"
    "targetRot (qs ! i) = E3 0 (pi - a) 0" "targetScale (qs ! i) = V3 0.6 0.6 0.6"
    unfolding q by (simp_all add: V3_def)
  with len r show ?thesis
    unfolding Let_def n_def [symmetric] a_def [symmetric] rad_def [symmetric] qs_def [symmetric]
    by blast
qed

text \<open>The second of four photos on an unconstrained display.\<close>

theorem tree_photo_ring_witness:
  "1 < length (photos photo_pool)
   \<and> axisRadius (targetPos (photos (fst (layout TREE False photo_pool half_draws)) ! 1)) = 16
   \<and> targetRot (photos (fst (layout TREE False photo_pool half_draws)) ! 1) = E3 0 (pi / 2) 0
   \<and> targetScale (photos (fst (layout TREE False photo_pool half_draws)) ! 1) = V3 0.6 0.6 0.6"
proof -
  have n: "length (photos photo_pool) = 4"
    by (simp add: photo_pool_photos) (simp add: photo_pool_def)
  then have h: "1 < length (photos photo_pool)"
    by simp
  from tree_photo_ring [OF h, of False half_draws] h show ?thesis
    unfolding Let_def n by simp
qed

text \<open>
  The claim as stated gives the yaw as the ring angle plus \<open>\<pi>\<close>. For the second of four
  photos the ring angle is \<open>\<pi> / 2\<close> and the yaw written is \<open>\<pi> / 2\<close>, which is half a turn
  away from \<open>\<pi> / 2 + \<pi>\<close>.
\<close>

theorem photo_yaw_small_pool:
  "ey (targetRot (photos (fst (layout TREE False photo_pool half_draws)) ! 1)) = pi / 2
   \<and> ey (targetRot (photos (fst (layout TREE False photo_pool half_draws)) ! 1))
       \<noteq> real 1 / real (length (photos photo_pool)) * pi * 2 + pi
   \<and> (real 1 / real (length (photos photo_pool)) * pi * 2 + pi)
       - ey (targetRot (photos (fst (layout TREE False photo_pool half_draws)) ! 1)) = pi"
proof -
  have n: "length (photos photo_pool) = 4"
    by (simp add: photo_pool_photos) (simp add: photo_pool_def)
  then have h: "1 < length (photos photo_pool)"
    by simp
  have "ey (targetRot (photos (fst (layout TREE False photo_pool half_draws)) ! 1)) = pi / 2"
    unfolding photo_target [OF h] n by (simp add: E3_def)
  then show ?thesis
    unfolding n by simp
qed

subsection \<open>The shell of the \<^verbatim>\<open>SCATTER\<close> pass\<close>

lemma sq_polar: "(A * cos t)\<^sup>2 + (A * sin t)\<^sup>2 = (A::real)\<^sup>2"
proof -
  have "(A * cos t)\<^sup>2 + (A * sin t)\<^sup>2 = A\<^sup>2 * (cos t)\<^sup>2 + A\<^sup>2 * (sin t)\<^sup>2"
    by (simp only: power_mult_distrib)
  also have "\<dots> = A\<^sup>2 * ((sin t)\<^sup>2 + (cos t)\<^sup>2)"
    by (simp only: distrib_left add.commute)
  also have "\<dots> = A\<^sup>2"
    by (simp only: sin_cos_squared_add mult_1_right)
  finally show ?thesis .
qed

lemma vlength_shell:
  assumes "0 \<le> R"
  shows "vlength (V3 (R * sin phi * cos theta) (R * sin phi * sin theta) (R * cos phi)) = R"
proof -
  have "(R * sin phi * cos theta)\<^sup>2 + (R * sin phi * sin theta)\<^sup>2 + (R * cos phi)\<^sup>2 =
        (R * sin phi)\<^sup>2 + (R * cos phi)\<^sup>2"
    by (simp only: sq_polar)
  also have "\<dots> = R\<^sup>2"
    using sq_polar [of R phi] by (simp only: add.commute)
  finally show ?thesis
    using assms by (simp add: vlength_def V3_def)
qed

lemma scatter_point:
  assumes "j < length ps"
  shows "targetPos (fst (layout SCATTER mob ps r) ! j) =
     V3 ((10 + r (3 * j) * 25) * sin (arccos (2 * r (3 * j + 2) - 1)) * cos (r (3 * j + 1) * pi * 2))
        ((10 + r (3 * j) * 25) * sin (arccos (2 * r (3 * j + 2) - 1)) * sin (r (3 * j + 1) * pi * 2))
        ((10 + r (3 * j) * 25) * cos (arccos (2 * r (3 * j + 2) - 1)))"
  by (simp add: layout_SCATTER_nth [OF assms] scatter_target_fst drop_draws_def add.commute)

text \<open>
  Claim C3. In \<^verbatim>\<open>SCATTER\<close> mode every particle of the pool, whatever its type, gets the
  target position \<open>(\<rho> sin \<phi> cos \<theta>, \<rho> sin \<phi> sin \<theta>, \<rho> cos \<phi>)\<close> with \<open>\<rho> = 10 + 25 u\<close>,
  \<open>\<theta> = 2 \<pi> v\<close> and \<open>\<phi> = arccos (2 w - 1)\<close>, where \<open>u\<close>, \<open>v\<close>, \<open>w\<close> are the three draws
  made for that particle. With draws in \<open>[0, 1)\<close> the azimuth lies in \<open>[0, 2 \<pi>)\<close>, the
  polar angle in \<open>[0, \<pi>]\<close>, and the distance of the target from the origin is \<open>\<rho>\<close>,
  between \<open>10\<close> and \<open>35\<close>.
\<close>

theorem scatter_shell:
  assumes "unit_draws r" and "j < length ps"
  shows "let rad = 10 + r (3 * j) * 25;
             theta = r (3 * j + 1) * pi * 2;
             phi = arccos (2 * r (3 * j + 2) - 1);
             q = fst (layout SCATTER mob ps r) ! j
         in length (fst (layout SCATTER mob ps r)) = length ps
          \<and> targetPos q = V3 (rad * sin phi * cos theta) (rad * sin phi * sin theta) (rad * cos phi)
          \<and> 10 \<le> rad \<and> rad < 35
          \<and> 0 \<le> theta \<and> theta < 2 * pi
          \<and> 0 \<le> phi \<and> phi \<le> pi
          \<and> vlength (targetPos q) = rad
          \<and> 10 \<le> vlength (targetPos q) \<and> vlength (targetPos q) \<le> 35"
proof -
  define rad where "rad = 10 + r (3 * j) * 25"
  define theta where "theta = r (3 * j + 1) * pi * 2"
  define phi where "phi = arccos (2 * r (3 * j + 2) - 1)"
  define q where "q = fst (layout SCATTER mob ps r) ! j"
  from assms(1) have u: "0 \<le> r k" "r k < 1" for k
    by (simp_all add: unit_draws_def)
  have len: "length (fst (layout SCATTER mob ps r)) = length ps"
    using layout_SCATTER_types [of mob ps r] by (metis length_map)
  have pos: "targetPos q = V3 (rad * sin phi * cos theta) (rad * sin phi * sin theta) (rad * cos phi)"
    unfolding q_def rad_def theta_def phi_def by (rule scatter_point [OF assms(2)])
  have rad: "10 \<le> rad" "rad < 35"
    using u [of "3 * j"] by (simp_all add: rad_def)
  have theta: "0 \<le> theta" "theta < 2 * pi"
    using u [of "3 * j + 1"] by (simp_all add: theta_def)
  have "- 1 \<le> 2 * r (3 * j + 2) - 1" "2 * r (3 * j + 2) - 1 \<le> 1"
    using u [of "3 * j + 2"] by simp_all
  then have phi: "0 \<le> phi" "phi \<le> pi"
    unfolding phi_def by (simp_all add: arccos_bounded)
  have "0 \<le> rad" using rad by simp
  then have norm: "vlength (targetPos q) = rad"
    unfolding pos by (rule vlength_shell)
  from rad have bounds: "10 \<le> vlength (targetPos q)" "vlength (targetPos q) \<le> 35"
    unfolding norm by simp_all
  from len pos rad theta phi norm bounds show ?thesis
    unfolding Let_def rad_def [symmetric] theta_def [symmetric] phi_def [symmetric] q_def [symmetric]
    by blast
qed

text \<open>The fifth particle of the small pool, an ornament, with every draw one half.\<close>

theorem scatter_shell_witness:
  "unit_draws half_draws \<and> 4 < length small_pool
   \<and> vlength (targetPos (fst (layout SCATTER False small_pool half_draws) ! 4)) = 22.5
   \<and> 10 \<le> vlength (targetPos (fst (layout SCATTER False small_pool half_draws) ! 4))
   \<and> vlength (targetPos (fst (layout SCATTER False small_pool half_draws) ! 4)) \<le> 35"
proof -
  have h: "4 < length small_pool"
    by (simp add: small_pool_def)
  have v: "10 + half_draws (3 * 4) * 25 = 22.5"
    by (simp add: half_draws_def)
  from scatter_shell [OF half_draws_unit h, of False] half_draws_unit h show ?thesis
    unfolding Let_def v by blast
qed

subsection \<open>What the \<^verbatim>\<open>FOCUS\<close> pass leaves alone\<close>

text \<open>
  Claim C5. A \<^verbatim>\<open>FOCUS\<close> pass leaves every particle that is neither a \<^verbatim>\<open>PHOTO\<close> nor a
  \<^verbatim>\<open>STAR\<close> as it was, in particular every \<^verbatim>\<open>NEEDLE\<close> and every \<^verbatim>\<open>SHAPE\<close>: target
  position, target orientation and target scale are those from before the pass.
\<close>

theorem focus_frame:
  assumes "j < length ps" and "ptype (ps ! j) \<noteq> PHOTO" and "ptype (ps ! j) \<noteq> STAR"
  shows "length (fst (layout FOCUS mob ps r)) = length ps
       \<and> fst (layout FOCUS mob ps r) ! j = ps ! j
       \<and> targetPos (fst (layout FOCUS mob ps r) ! j) = targetPos (ps ! j)
       \<and> targetRot (fst (layout FOCUS mob ps r) ! j) = targetRot (ps ! j)
       \<and> targetScale (fst (layout FOCUS mob ps r) ! j) = targetScale (ps ! j)"
proof -
  have len: "length (fst (layout FOCUS mob ps r)) = length ps"
    using layout_FOCUS_types [of mob ps r] by (metis length_map)
  have "fst (layout FOCUS mob ps r) ! j = ps ! j"
    using assms(2,3) by (simp add: layout_FOCUS_nth [OF assms(1)])
  with len show ?thesis by simp
qed

text \<open>The second needle of the small pool.\<close>

theorem focus_frame_witness:
  "2 < length small_pool \<and> ptype (small_pool ! 2) \<noteq> PHOTO \<and> ptype (small_pool ! 2) \<noteq> STAR
   \<and> ptype (small_pool ! 2) = NEEDLE
   \<and> targetPos (fst (layout FOCUS False small_pool half_draws) ! 2) = targetPos (small_pool ! 2)
   \<and> targetRot (fst (layout FOCUS False small_pool half_draws) ! 2) = targetRot (small_pool ! 2)
   \<and> targetScale (fst (layout FOCUS False small_pool half_draws) ! 2) = targetScale (small_pool ! 2)"
proof -
  have h: "2 < length small_pool" "ptype (small_pool ! 2) \<noteq> PHOTO" "ptype (small_pool ! 2) \<noteq> STAR"
    and t: "ptype (small_pool ! 2) = NEEDLE"
    by (simp_all add: small_pool_def sample_types)
  from focus_frame [OF h, of False half_draws] h t show ?thesis
    by blast
qed

subsection \<open>Staging a photo in \<^verbatim>\<open>FOCUS\<close> mode\<close>

lemma focus_photo_hit:
  "int i = k \<Longrightarrow> fst (focus_photo mob k p i r) =
     p\<lparr>targetPos := V3 0 3 (if mob then 30 else 35),
       targetRot := E3 0 0 0,
       targetScale := V3 (if mob then 3.5 else 5.5) (if mob then 3.5 else 5.5) 5.5\<rparr>"
  by (simp add: focus_photo_def)

lemma focus_photo_miss:
  "int i \<noteq> k \<Longrightarrow> fst (focus_photo mob k p i r) =
     p\<lparr>targetPos := V3 ((r 0 - 0.5) * 80) ((r 1 - 0.5) * 80) (- 40)\<rparr>"
  by (simp add: focus_photo_def Math_random_def Let_def)

lemma layout_FOCUS_photos:
  assumes "i < length (photos ps)"
  shows "\<exists>r'. photos (fst (layout FOCUS mob ps r)) ! i =
           fst (focus_photo mob \<lfloor>r 0 * real (length (photos ps))\<rfloor> (photos ps ! i) i r')"
proof -
  from partition_position [OF layout_FOCUS_types [symmetric], of i PHOTO ps mob r] assms
  obtain j where j: "j < length ps" "ptype (ps ! j) = PHOTO" "rank (of_type PHOTO) ps j = i"
    "photos ps ! i = ps ! j" "photos (fst (layout FOCUS mob ps r)) ! i = fst (layout FOCUS mob ps r) ! j"
    unfolding photos_def by blast
  show ?thesis
    by (rule exI) (simp add: j layout_FOCUS_nth [OF j(1)])
qed

lemma layout_FOCUS_count: "length (photos (fst (layout FOCUS mob ps r))) = length (photos ps)"
  unfolding photos_def by (rule same_types_filter [OF layout_FOCUS_types])

lemma focusIdx_range:
  assumes "unit_draws r" and "0 < n"
  shows "0 \<le> \<lfloor>r 0 * real n\<rfloor>" and "nat \<lfloor>r 0 * real n\<rfloor> < n"
proof -
  from assms(1) have u: "0 \<le> r 0" "r 0 < 1"
    by (simp_all add: unit_draws_def)
  then show a: "0 \<le> \<lfloor>r 0 * real n\<rfloor>"
    by simp
  from u assms(2) have "r 0 * real n < real n"
    by simp
  then have "\<lfloor>r 0 * real n\<rfloor> < int n"
    by (simp add: floor_less_iff)
  then show "nat \<lfloor>r 0 * real n\<rfloor> < n"
    using assms(2) by linarith
qed

text \<open>
  Claim C4. In \<^verbatim>\<open>FOCUS\<close> mode with a non-empty photo partition of size \<open>n\<close> and draws in
  \<open>[0, 1)\<close>, the photo at index \<open>k = \<lfloor>u n\<rfloor>\<close> (\<open>u\<close> the first draw) gets the target position
  \<open>(0, 3, 30)\<close> on constrained displays and \<open>(0, 3, 35)\<close> otherwise, the neutral target
  orientation, and a target scale of \<open>3.5\<close> (constrained) or \<open>5.5\<close> in \<^verbatim>\<open>x\<close> and \<^verbatim>\<open>y\<close> and
  \<open>5.5\<close> in \<^verbatim>\<open>z\<close>; its base scale is untouched. Every other photo gets a target position
  with \<^verbatim>\<open>z = -40\<close> and keeps its target scale. So exactly one photo has a target scale of
  at least \<open>3.5\<close> together with a target position of positive depth.
\<close>

theorem focus_staging:
  assumes "unit_draws r" and "photos ps \<noteq> []"
  shows "let n = length (photos ps);
             k = nat \<lfloor>r 0 * real n\<rfloor>;
             s = (if mob then 3.5 else 5.5);
             qs = photos (fst (layout FOCUS mob ps r))
         in length qs = n \<and> k < n
          \<and> targetPos (qs ! k) = V3 0 3 (if mob then 30 else 35)
          \<and> targetRot (qs ! k) = E3 0 0 0
          \<and> targetScale (qs ! k) = V3 s s 5.5
          \<and> baseScale (qs ! k) = baseScale (photos ps ! k)
          \<and> (\<forall>i<n. i \<noteq> k \<longrightarrow> vz (targetPos (qs ! i)) = - 40
                               \<and> targetScale (qs ! i) = targetScale (photos ps ! i))
          \<and> (\<forall>i<n. (3.5 \<le> vx (targetScale (qs ! i)) \<and> 3.5 \<le> vy (targetScale (qs ! i))
                      \<and> 3.5 \<le> vz (targetScale (qs ! i)) \<and> 0 < vz (targetPos (qs ! i)))
                     \<longleftrightarrow> i = k)"
proof -
  define n where "n = length (photos ps)"
  define k where "k = nat \<lfloor>r 0 * real n\<rfloor>"
  define s :: real where "s = (if mob then 3.5 else 5.5)"
  define qs where "qs = photos (fst (layout FOCUS mob ps r))"
  from assms(2) have n: "0 < n" by (simp add: n_def)
  have len: "length qs = n"
    unfolding qs_def n_def by (rule layout_FOCUS_count)
  have k: "k < n" and k0: "int k = \<lfloor>r 0 * real n\<rfloor>"
    using focusIdx_range [OF assms(1) n] by (simp_all add: k_def)
  have at: "\<exists>r'. qs ! i = fst (focus_photo mob (int k) (photos ps ! i) i r')" if "i < n" for i
    using layout_FOCUS_photos [of i ps mob r] that unfolding qs_def n_def [symmetric] k0 by simp
  from at [OF k] obtain r' where "qs ! k = fst (focus_photo mob (int k) (photos ps ! k) k r')"
    by blast
  then have hit: "qs ! k = (photos ps ! k)
      \<lparr>targetPos := V3 0 3 (if mob then 30 else 35), targetRot := E3 0 0 0, targetScale := V3 s s 5.5\<rparr>"
    by (simp add: focus_photo_hit s_def)
  have miss: "vz (targetPos (qs ! i)) = - 40 \<and> targetScale (qs ! i) = targetScale (photos ps ! i)"
    if "i < n" "i \<noteq> k" for i
  proof -
    from at [OF that(1)] obtain r' where "qs ! i = fst (focus_photo mob (int k) (photos ps ! i) i r')"
      by blast
    with that(2) show ?thesis
      by (simp add: focus_photo_miss V3_def)
  qed
  have a: "targetPos (qs ! k) = V3 0 3 (if mob then 30 else 35)" "targetRot (qs ! k) = E3 0 0 0"
    "targetScale (qs ! k) = V3 s s 5.5" "baseScale (qs ! k) = baseScale (photos ps ! k)"
    unfolding hit by simp_all
  have big: "3.5 \<le> vx (targetScale (qs ! k)) \<and> 3.5 \<le> vy (targetScale (qs ! k))
      \<and> 3.5 \<le> vz (targetScale (qs ! k)) \<and> 0 < vz (targetPos (qs ! k))"
    unfolding a by (simp add: V3_def s_def)
  have only: "(3.5 \<le> vx (targetScale (qs ! i)) \<and> 3.5 \<le> vy (targetScale (qs ! i))
      \<and> 3.5 \<le> vz (targetScale (qs ! i)) \<and> 0 < vz (targetPos (qs ! i))) \<longleftrightarrow> i = k" if "i < n" for i
  proof (cases "i = k")
    case True
    with big show ?thesis by simp
  next
    case False
    with miss [OF that] show ?thesis by simp
  qed
  from len k a miss only show ?thesis
    unfolding Let_def n_def [symmetric] k_def [symmetric] s_def [symmetric] qs_def [symmetric]
    by blast
qed

text \<open>Four photos and a first draw of one half: the third photo is staged.\<close>

theorem focus_staging_witness:
  "unit_draws half_draws \<and> photos photo_pool \<noteq> [] \<and> (0::nat) < 4 \<and> (0::nat) \<noteq> 2
   \<and> length (photos (fst (layout FOCUS False photo_pool half_draws))) = 4
   \<and> targetPos (photos (fst (layout FOCUS False photo_pool half_draws)) ! 2) = V3 0 3 35
   \<and> targetScale (photos (fst (layout FOCUS False photo_pool half_draws)) ! 2) = V3 5.5 5.5 5.5
   \<and> vz (targetPos (photos (fst (layout FOCUS False photo_pool half_draws)) ! 0)) = - 40"
proof -
  have h: "photos photo_pool \<noteq> []"
    by (simp add: photo_pool_photos) (simp add: photo_pool_def)
  have n: "length (photos photo_pool) = 4"
    by (simp add: photo_pool_photos) (simp add: photo_pool_def)
  have k: "nat \<lfloor>half_draws 0 * real 4\<rfloor> = 2"
    by (simp add: half_draws_def)
  from focus_staging [OF half_draws_unit h, of False] half_draws_unit h show ?thesis
    unfolding Let_def n k by simp
qed

section \<open>The photo intake\<close>

lemma Particle_new_fst:
  "fst (Particle_new m ty r) =
     \<lparr>mesh = m, targetPos = position m, targetRot = rotation m, targetScale = scale m, ptype = ty,
      twinkleOffset = r 0 * pi * 2, twinkleSpeed = 0.5 + r 1 * 2,
      velocity = V3 ((r 2 - 0.5) * 0.02) (- 0.01 - r 3 * 0.03) ((r 4 - 0.5) * 0.02),
      baseScale = vx (scale m)\<rparr>"
  by (simp add: Particle_new_def Math_random_def numeral_2_eq_2 numeral_3_eq_3 eval_nat_numeral)

lemma Math_random_drop: "Math_random r = (r 0, drop_draws 1 r)"
  by (simp add: Math_random_def drop_draws_def)

lemma drop_draws_drop: "drop_draws a (drop_draws b r) = drop_draws (b + a) r"
  by (simp add: drop_draws_def ac_simps)

lemma drop_draws_at: "drop_draws k r n = r (n + k)"
  by (simp add: drop_draws_def)

lemma generateUUID_draws: "generateUUID r = drop_draws 4 r"
  by (simp add: generateUUID_def Math_random_def drop_draws_def eval_nat_numeral)

text \<open>The guard: without a scene the call changes neither the state nor the random source.\<close>

lemma addPhotoToScene_unset: "sceneRef st = None \<Longrightarrow> addPhotoToScene st r = (st, r)"
  by (simp add: addPhotoToScene_def)

lemma addPhotoToScene_set:
  assumes "sceneRef st \<noteq> None"
  shows "fst (addPhotoToScene st r) =
     st\<lparr>particlesRef := particlesRef st @
       [fst (Particle_new
              (Mesh_new\<lparr>position := V3 ((r 24 - 0.5) * 50) ((r 25 - 0.5) * 50) ((r 26 - 0.5) * 50)\<rparr>)
              PHOTO (drop_draws 27 r))]\<rparr>"
    and "snd (addPhotoToScene st r) = snd (Particle_new
              (Mesh_new\<lparr>position := V3 ((r 24 - 0.5) * 50) ((r 25 - 0.5) * 50) ((r 26 - 0.5) * 50)\<rparr>)
              PHOTO (drop_draws 27 r))"
proof -
  from assms obtain sc where "sceneRef st = Some sc"
    by blast
  then show "fst (addPhotoToScene st r) =
     st\<lparr>particlesRef := particlesRef st @
       [fst (Particle_new
              (Mesh_new\<lparr>position := V3 ((r 24 - 0.5) * 50) ((r 25 - 0.5) * 50) ((r 26 - 0.5) * 50)\<rparr>)
              PHOTO (drop_draws 27 r))]\<rparr>"
    and "snd (addPhotoToScene st r) = snd (Particle_new
              (Mesh_new\<lparr>position := V3 ((r 24 - 0.5) * 50) ((r 25 - 0.5) * 50) ((r 26 - 0.5) * 50)\<rparr>)
              PHOTO (drop_draws 27 r))"
    by (simp_all add: addPhotoToScene_def generateUUID_draws Math_random_drop drop_draws_drop
        drop_draws_at case_prod_beta Let_def)
qed

lemma Particle_new_snd: "snd (Particle_new m ty r) = drop_draws 5 r"
  by (simp add: Particle_new_def Math_random_def drop_draws_def case_prod_beta eval_nat_numeral)

text \<open>One call draws thirty-two numbers: twenty-four for UUIDs, three for the spawn
  position and five in the particle's constructor.\<close>

lemma addPhotoToScene_draws:
  "sceneRef st \<noteq> None \<Longrightarrow> snd (addPhotoToScene st r) = drop_draws 32 r"
  by (simp add: addPhotoToScene_set(2) Particle_new_snd drop_draws_drop)

text \<open>
  Claim C7. The initialisation effect stores the scene in \<^verbatim>\<open>sceneRef\<close> before it calls
  \<^verbatim>\<open>addPhotoToScene\<close> and before it registers the listener that calls it, and the call
  leaves \<^verbatim>\<open>sceneRef\<close> as it is: every call finds the scene set. Such a call appends exactly
  one new \<^verbatim>\<open>PHOTO\<close> particle to the pool, whose spawn position lies within \<open>25\<close> of the
  origin along every axis, whose target equals its spawn position, and whose scale and
  base scale are one; every particle that was in the pool is still there, at its index and
  unchanged, with its target position, target orientation and target scale.
\<close>

theorem photo_intake:
  assumes "sceneRef st \<noteq> None" and "unit_draws r"
  shows "let ps = particlesRef st;
             ps' = particlesRef (fst (addPhotoToScene st r));
             q = last ps'
         in ps' = ps @ [q]
          \<and> sceneRef (fst (addPhotoToScene st r)) = sceneRef st
          \<and> ptype q = PHOTO
          \<and> length (photos ps') = length (photos ps) + 1
          \<and> position (mesh q) = V3 ((r 24 - 0.5) * 50) ((r 25 - 0.5) * 50) ((r 26 - 0.5) * 50)
          \<and> \<bar>vx (position (mesh q))\<bar> \<le> 25
          \<and> \<bar>vy (position (mesh q))\<bar> \<le> 25
          \<and> \<bar>vz (position (mesh q))\<bar> \<le> 25
          \<and> targetPos q = position (mesh q)
          \<and> targetScale q = V3 1 1 1
          \<and> baseScale q = 1
          \<and> (\<forall>j<length ps. ps' ! j = ps ! j
                \<and> targetPos (ps' ! j) = targetPos (ps ! j)
                \<and> targetRot (ps' ! j) = targetRot (ps ! j)
                \<and> targetScale (ps' ! j) = targetScale (ps ! j))"
proof -
  define ps where "ps = particlesRef st"
  define ps' where "ps' = particlesRef (fst (addPhotoToScene st r))"
  define q where "q = last ps'"
  define q0 where "q0 = fst (Particle_new
      (Mesh_new\<lparr>position := V3 ((r 24 - 0.5) * 50) ((r 25 - 0.5) * 50) ((r 26 - 0.5) * 50)\<rparr>)
      PHOTO (drop_draws 27 r))"
  have st': "fst (addPhotoToScene st r) = st\<lparr>particlesRef := particlesRef st @ [q0]\<rparr>"
    unfolding q0_def by (rule addPhotoToScene_set(1) [OF assms(1)])
  have pool: "ps' = ps @ [q0]"
    unfolding ps'_def ps_def st' by simp
  then have q: "q = q0"
    by (simp add: q_def)
  from assms(2) have u: "0 \<le> r k" "r k < 1" for k
    by (simp_all add: unit_draws_def)
  have a: "ps' = ps @ [q]"
    by (simp only: pool q)
  have s: "sceneRef (fst (addPhotoToScene st r)) = sceneRef st"
    unfolding st' by simp
  have b: "ptype q = PHOTO" "targetPos q = position (mesh q)" "targetScale q = V3 1 1 1"
    "baseScale q = 1"
    "position (mesh q) = V3 ((r 24 - 0.5) * 50) ((r 25 - 0.5) * 50) ((r 26 - 0.5) * 50)"
    unfolding q q0_def Particle_new_fst by (simp_all add: Mesh_new_def V3_def)
  have c: "length (photos ps') = length (photos ps) + 1"
    unfolding a using b(1) by (simp add: photos_def)
  have d: "\<bar>vx (position (mesh q))\<bar> \<le> 25" "\<bar>vy (position (mesh q))\<bar> \<le> 25"
    "\<bar>vz (position (mesh q))\<bar> \<le> 25"
    unfolding b(5) using u [of 24] u [of 25] u [of 26] by (simp_all add: V3_def abs_le_iff)
  have e: "ps' ! j = ps ! j" if "j < length ps" for j
    unfolding a using that by (simp add: nth_append)
  from a s b c d e show ?thesis
    unfolding Let_def ps_def [symmetric] ps'_def [symmetric] q_def [symmetric]
    by simp
qed

text \<open>
  The small pool with the scene built; every draw is one half, so the photo spawns at the
  origin.
\<close>

theorem photo_intake_witness:
  "sceneRef scene_ready \<noteq> None \<and> unit_draws half_draws \<and> 1 < length (particlesRef scene_ready)
   \<and> length (photos (particlesRef (fst (addPhotoToScene scene_ready half_draws)))) =
       length (photos (particlesRef scene_ready)) + 1
   \<and> position (mesh (last (particlesRef (fst (addPhotoToScene scene_ready half_draws))))) = V3 0 0 0
   \<and> particlesRef (fst (addPhotoToScene scene_ready half_draws)) ! 1 = particlesRef scene_ready ! 1
   \<and> targetPos (particlesRef (fst (addPhotoToScene scene_ready half_draws)) ! 1) =
       targetPos (particlesRef scene_ready ! 1)"
proof -
  have h: "sceneRef scene_ready \<noteq> None"
    and l: "1 < length (particlesRef scene_ready)"
    by (simp_all add: scene_ready_def small_pool_def)
  have z: "(half_draws k - 0.5) * 50 = 0" for k
    by (simp add: half_draws_def)
  from photo_intake [OF h half_draws_unit] h half_draws_unit l show ?thesis
    unfolding Let_def z by blast
qed

section \<open>Repeating a layout pass\<close>

lemma types_length: "map ptype xs = map ptype ys \<Longrightarrow> length xs = length ys"
  by (metis length_map)

lemma layout_TREE_snd:
  "snd (layout TREE mob ps r) = drop_draws (2 * length (needles ps) + length (photos ps)) r"
proof (cases "ps = []")
  case True
  then show ?thesis
    by (simp add: layout_def needles_def photos_def drop_draws_0)
next
  case False
  define ps1 where "ps1 = update_first (of_type STAR) (\<lambda>s. s\<lparr>targetPos := V3 0 16.5 0\<rparr>) ps"
  define n where "n = length (needles ps)"
  define fS where "fS = tree_shape (length (shapes ps))"
  define fP where "fP = tree_photo mob (length (photos ps))"
  define ps2 where "ps2 = fst (forEach_where (of_type NEEDLE) (tree_needle n) 0 ps1 r)"
  define ps3 where "ps3 = fst (forEach_where (of_type SHAPE) fS 0 ps2 (drop_draws (2 * n) r))"
  have t1: "map ptype ps1 = map ptype ps"
    unfolding ps1_def by (rule update_first_types) simp
  have t2: "map ptype ps2 = map ptype ps"
    unfolding ps2_def by (simp only: forEach_where_types [OF callbacks_ptype(1)] t1)
  have t3: "map ptype ps3 = map ptype ps"
    unfolding ps3_def fS_def by (simp only: forEach_where_types [OF callbacks_ptype(2)] t2)
  have "length (filter (of_type NEEDLE) ps1) = n"
    unfolding n_def needles_def by (rule same_types_filter [OF t1])
  then have r2: "snd (forEach_where (of_type NEEDLE) (tree_needle n) 0 ps1 r) = drop_draws (2 * n) r"
    by (simp only: forEach_where_draws [of _ 2, OF tree_needle_snd])
  have r3: "snd (forEach_where (of_type SHAPE) fS 0 qs r') = r'" for qs r'
    unfolding fS_def by (simp add: forEach_where_draws [of _ 0, OF tree_shape_snd] drop_draws_0)
  have "length (filter (of_type PHOTO) ps3) = length (photos ps)"
    unfolding photos_def by (rule same_types_filter [OF t3])
  then have r4: "snd (forEach_where (of_type PHOTO) fP 0 ps3 r') = drop_draws (length (photos ps)) r'"
    for r'
    unfolding fP_def by (simp add: forEach_where_draws [of _ 1, OF tree_photo_snd])
  have "snd (layout TREE mob ps r) =
        snd (forEach_where (of_type PHOTO) fP 0
          (fst (forEach_where (of_type SHAPE) fS 0
                 (fst (forEach_where (of_type NEEDLE) (tree_needle n) 0 ps1 r))
                 (snd (forEach_where (of_type NEEDLE) (tree_needle n) 0 ps1 r))))
          (snd (forEach_where (of_type SHAPE) fS 0
                 (fst (forEach_where (of_type NEEDLE) (tree_needle n) 0 ps1 r))
                 (snd (forEach_where (of_type NEEDLE) (tree_needle n) 0 ps1 r)))))"
    using False unfolding ps1_def n_def fS_def fP_def
    by (simp add: layout_def case_prod_beta Let_def)
  also have "\<dots> = snd (forEach_where (of_type PHOTO) fP 0 ps3 (drop_draws (2 * n) r))"
    unfolding r3 r2 ps3_def ps2_def ..
  also have "\<dots> = drop_draws (length (photos ps)) (drop_draws (2 * n) r)"
    by (rule r4)
  also have "\<dots> = drop_draws (2 * n + length (photos ps)) r"
    by (simp add: drop_draws_def ac_simps)
  finally show ?thesis
    unfolding n_def .
qed

text \<open>Two TREE passes, the second with any random source.\<close>

lemma layout_TREE_twice_nth:
  assumes "j < length ps"
  shows "fst (layout TREE mob (fst (layout TREE mob ps r)) r') ! j =
     (if ptype (ps ! j) = PHOTO
      then fst (tree_photo mob (length (photos ps)) (fst (layout TREE mob ps r) ! j)
                 (rank (of_type PHOTO) ps j)
                 (drop_draws (2 * length (needles ps) + rank (of_type PHOTO) ps j) r'))
      else if ptype (ps ! j) = SHAPE
      then fst (tree_shape (length (shapes ps)) (fst (layout TREE mob ps r) ! j)
                 (rank (of_type SHAPE) ps j) r')
      else if ptype (ps ! j) = NEEDLE
      then fst (tree_needle (length (needles ps)) (fst (layout TREE mob ps r) ! j)
                 (rank (of_type NEEDLE) ps j)
                 (drop_draws (2 * rank (of_type NEEDLE) ps j) r'))
      else if ptype (ps ! j) = STAR \<and> rank (of_type STAR) ps j = 0
      then (fst (layout TREE mob ps r) ! j)\<lparr>targetPos := V3 0 16.5 0\<rparr>
      else fst (layout TREE mob ps r) ! j)"
proof -
  define ps' where "ps' = fst (layout TREE mob ps r)"
  have t: "map ptype ps' = map ptype ps"
    unfolding ps'_def by (rule layout_TREE_types)
  have l: "j < length ps'"
    using assms types_length [OF t] by simp
  have p: "ptype (ps' ! j) = ptype (ps ! j)"
    by (rule same_types_nth [OF t l])
  have c: "length (photos ps') = length (photos ps)" "length (shapes ps') = length (shapes ps)"
    "length (needles ps') = length (needles ps)"
    unfolding photos_def shapes_def needles_def by (rule same_types_filter [OF t])+
  show ?thesis
    unfolding ps'_def [symmetric]
    by (simp only: layout_TREE_nth [OF l] p c same_types_rank [OF t])
qed

lemma layout_TREE_idem:
  "fst (layout TREE mob (fst (layout TREE mob ps r)) r) = fst (layout TREE mob ps r)"
proof (rule nth_equalityI)
  show "length (fst (layout TREE mob (fst (layout TREE mob ps r)) r)) = length (fst (layout TREE mob ps r))"
    by (rule types_length [OF layout_TREE_types])
next
  fix j
  assume "j < length (fst (layout TREE mob (fst (layout TREE mob ps r)) r))"
  then have j: "j < length ps"
    using types_length [OF layout_TREE_types, of mob "fst (layout TREE mob ps r)" r]
      types_length [OF layout_TREE_types, of mob ps r] by simp
  show "fst (layout TREE mob (fst (layout TREE mob ps r)) r) ! j = fst (layout TREE mob ps r) ! j"
    unfolding layout_TREE_twice_nth [OF j] unfolding layout_TREE_nth [OF j]
    by (simp add: tree_photo_fst tree_shape_fst tree_needle_fst)
qed

lemma layout_SCATTER_idem:
  "fst (layout SCATTER mob (fst (layout SCATTER mob ps r)) r) = fst (layout SCATTER mob ps r)"
proof (rule nth_equalityI)
  show "length (fst (layout SCATTER mob (fst (layout SCATTER mob ps r)) r)) =
        length (fst (layout SCATTER mob ps r))"
    by (rule types_length [OF layout_SCATTER_types])
next
  fix j
  assume "j < length (fst (layout SCATTER mob (fst (layout SCATTER mob ps r)) r))"
  then have j: "j < length (fst (layout SCATTER mob ps r))" "j < length ps"
    using types_length [OF layout_SCATTER_types, of mob "fst (layout SCATTER mob ps r)" r]
      types_length [OF layout_SCATTER_types, of mob ps r] by simp_all
  show "fst (layout SCATTER mob (fst (layout SCATTER mob ps r)) r) ! j = fst (layout SCATTER mob ps r) ! j"
    unfolding layout_SCATTER_nth [OF j(1)] unfolding layout_SCATTER_nth [OF j(2)]
    by (simp add: scatter_target_fst)
qed

lemma focus_photo_snd_indep: "snd (focus_photo mob k p i r) = snd (focus_photo mob k q i r)"
  by (simp add: focus_photo_def Math_random_def Let_def)

lemma focus_photo_idem:
  "fst (focus_photo mob k (fst (focus_photo mob k p i r)) i r) = fst (focus_photo mob k p i r)"
  by (simp add: focus_photo_def Math_random_def Let_def)

lemma layout_FOCUS_idem:
  "fst (layout FOCUS mob (fst (layout FOCUS mob ps r)) r) = fst (layout FOCUS mob ps r)"
proof (rule nth_equalityI)
  show "length (fst (layout FOCUS mob (fst (layout FOCUS mob ps r)) r)) =
        length (fst (layout FOCUS mob ps r))"
    by (rule types_length [OF layout_FOCUS_types])
next
  fix j
  define ps' where "ps' = fst (layout FOCUS mob ps r)"
  define k where "k = \<lfloor>r 0 * real (length (photos ps))\<rfloor>"
  assume "j < length (fst (layout FOCUS mob (fst (layout FOCUS mob ps r)) r))"
  then have "j < length (fst (layout FOCUS mob ps' r))"
    by (simp only: ps'_def)
  have t: "map ptype ps' = map ptype ps"
    unfolding ps'_def by (rule layout_FOCUS_types)
  have l: "j < length ps'"
    using \<open>j < length (fst (layout FOCUS mob ps' r))\<close> types_length [OF layout_FOCUS_types, of mob ps' r]
    by simp
  then have j: "j < length ps"
    using types_length [OF t] by simp
  have p: "ptype (ps' ! j) = ptype (ps ! j)"
    by (rule same_types_nth [OF t l])
  have c: "length (photos ps') = length (photos ps)"
    unfolding photos_def by (rule same_types_filter [OF t])
  have "map (of_type PHOTO) (take j ps') = map (of_type PHOTO) (take j ps)"
    using same_types_pattern [OF t, of PHOTO] by (simp only: take_map [symmetric])
  then have d: "snd (forEach_where (of_type PHOTO) (focus_photo mob k) 0 (take j ps') (drop_draws 1 r)) =
        snd (forEach_where (of_type PHOTO) (focus_photo mob k) 0 (take j ps) (drop_draws 1 r))"
    by (rule forEach_where_draws_cong [OF focus_photo_snd_indep])
  have two: "fst (layout FOCUS mob ps' r) ! j =
     (if ptype (ps ! j) = PHOTO
      then fst (focus_photo mob k (ps' ! j) (rank (of_type PHOTO) ps j)
                 (snd (forEach_where (of_type PHOTO) (focus_photo mob k) 0 (take j ps) (drop_draws 1 r))))
      else if ptype (ps ! j) = STAR \<and> rank (of_type STAR) ps j = 0
      then (ps' ! j)\<lparr>targetPos := V3 0 40 (- 50)\<rparr>
      else ps' ! j)"
    by (simp only: layout_FOCUS_nth [OF l] p c same_types_rank [OF t] k_def [symmetric] d)
  have one: "ps' ! j =
     (if ptype (ps ! j) = PHOTO
      then fst (focus_photo mob k (ps ! j) (rank (of_type PHOTO) ps j)
                 (snd (forEach_where (of_type PHOTO) (focus_photo mob k) 0 (take j ps) (drop_draws 1 r))))
      else if ptype (ps ! j) = STAR \<and> rank (of_type STAR) ps j = 0
      then (ps ! j)\<lparr>targetPos := V3 0 40 (- 50)\<rparr>
      else ps ! j)"
    unfolding ps'_def k_def by (rule layout_FOCUS_nth [OF j])
  have "fst (layout FOCUS mob ps' r) ! j = ps' ! j"
    unfolding two by (simp add: one focus_photo_idem)
  then show "fst (layout FOCUS mob (fst (layout FOCUS mob ps r)) r) ! j = fst (layout FOCUS mob ps r) ! j"
    unfolding ps'_def .
qed

lemma layout_idem:
  "fst (layout mode mob (fst (layout mode mob ps r)) r) = fst (layout mode mob ps r)"
  by (cases mode) (simp_all only: layout_TREE_idem layout_SCATTER_idem layout_FOCUS_idem)

lemma layout_TREE_fixed_parts:
  assumes "j < length ps"
  shows "(ptype (ps ! j) \<noteq> PHOTO \<longrightarrow>
            targetPos (fst (layout TREE mob (fst (layout TREE mob ps r)) r') ! j) =
            targetPos (fst (layout TREE mob ps r) ! j))
       \<and> vx (targetPos (fst (layout TREE mob (fst (layout TREE mob ps r)) r') ! j)) =
           vx (targetPos (fst (layout TREE mob ps r) ! j))
       \<and> vz (targetPos (fst (layout TREE mob (fst (layout TREE mob ps r)) r') ! j)) =
           vz (targetPos (fst (layout TREE mob ps r) ! j))
       \<and> (ptype (ps ! j) \<noteq> NEEDLE \<longrightarrow>
            targetRot (fst (layout TREE mob (fst (layout TREE mob ps r)) r') ! j) =
            targetRot (fst (layout TREE mob ps r) ! j))
       \<and> ey (targetRot (fst (layout TREE mob (fst (layout TREE mob ps r)) r') ! j)) =
           ey (targetRot (fst (layout TREE mob ps r) ! j))
       \<and> targetScale (fst (layout TREE mob (fst (layout TREE mob ps r)) r') ! j) =
           targetScale (fst (layout TREE mob ps r) ! j)"
  unfolding layout_TREE_twice_nth [OF assms] unfolding layout_TREE_nth [OF assms]
  by (simp add: tree_photo_fst tree_shape_fst tree_needle_fst V3_def E3_def)

text \<open>
  Claim C9, as amended. A layout pass repeated for the same mode on the pool it has just laid
  out, with \<^verbatim>\<open>Math.random\<close> returning the same draws, yields the same pool: in every mode
  the targets are a function of the pool order, the display class and the draws. The draws
  enter every mode, \<^verbatim>\<open>TREE\<close> included. Two successive \<^verbatim>\<open>TREE\<close> passes with different draws
  still agree on the target position of every particle that is not a \<^verbatim>\<open>PHOTO\<close>, on the
  \<^verbatim>\<open>x\<close> and \<^verbatim>\<open>z\<close> of every target position, on the target orientation of every particle
  that is not a \<^verbatim>\<open>NEEDLE\<close>, on every yaw, and on every target scale.
\<close>

theorem layout_repeatable:
  "fst (layout mode mob (fst (layout mode mob ps r)) r) = fst (layout mode mob ps r)
   \<and> (\<forall>j<length ps.
        (ptype (ps ! j) \<noteq> PHOTO \<longrightarrow>
            targetPos (fst (layout TREE mob (fst (layout TREE mob ps r)) r') ! j) =
            targetPos (fst (layout TREE mob ps r) ! j))
       \<and> vx (targetPos (fst (layout TREE mob (fst (layout TREE mob ps r)) r') ! j)) =
           vx (targetPos (fst (layout TREE mob ps r) ! j))
       \<and> vz (targetPos (fst (layout TREE mob (fst (layout TREE mob ps r)) r') ! j)) =
           vz (targetPos (fst (layout TREE mob ps r) ! j))
       \<and> (ptype (ps ! j) \<noteq> NEEDLE \<longrightarrow>
            targetRot (fst (layout TREE mob (fst (layout TREE mob ps r)) r') ! j) =
            targetRot (fst (layout TREE mob ps r) ! j))
       \<and> ey (targetRot (fst (layout TREE mob (fst (layout TREE mob ps r)) r') ! j)) =
           ey (targetRot (fst (layout TREE mob ps r) ! j))
       \<and> targetScale (fst (layout TREE mob (fst (layout TREE mob ps r)) r') ! j) =
           targetScale (fst (layout TREE mob ps r) ! j))"
  using layout_idem [of mode mob ps r] layout_TREE_fixed_parts [of _ ps mob r r']
  by blast

text \<open>The small pool: a needle's target position and an ornament's target orientation.\<close>

theorem layout_repeatable_witness:
  "1 < length small_pool \<and> ptype (small_pool ! 1) \<noteq> PHOTO
   \<and> 4 < length small_pool \<and> ptype (small_pool ! 4) \<noteq> NEEDLE
   \<and> fst (layout TREE False (fst (layout TREE False small_pool half_draws)) half_draws) =
       fst (layout TREE False small_pool half_draws)
   \<and> targetPos (fst (layout TREE False (fst (layout TREE False small_pool half_draws)) step_draws) ! 1) =
       targetPos (fst (layout TREE False small_pool half_draws) ! 1)
   \<and> targetRot (fst (layout TREE False (fst (layout TREE False small_pool half_draws)) step_draws) ! 4) =
       targetRot (fst (layout TREE False small_pool half_draws) ! 4)"
proof -
  have h: "1 < length small_pool" "ptype (small_pool ! 1) \<noteq> PHOTO"
    "4 < length small_pool" "ptype (small_pool ! 4) \<noteq> NEEDLE"
    by (simp_all add: small_pool_def sample_types)
  from layout_repeatable [of TREE False small_pool half_draws step_draws] h show ?thesis
    by blast
qed

text \<open>
  The claim as stated lets only \<^verbatim>\<open>FOCUS\<close> and \<^verbatim>\<open>SCATTER\<close> draw random numbers. A \<^verbatim>\<open>TREE\<close>
  pass draws the \<^verbatim>\<open>x\<close> and \<^verbatim>\<open>z\<close> target rotation of every needle: on a pool of one needle,
  a second pass that continues the random source of the first writes a different target
  orientation.
\<close>

theorem tree_pass_redraws:
  "targetRot (fst (layout TREE False (fst (layout TREE False [needle0] step_draws))
                     (snd (layout TREE False [needle0] step_draws))) ! 0)
     \<noteq> targetRot (fst (layout TREE False [needle0] step_draws) ! 0)"
proof -
  have j: "0 < length [needle0]"
    by simp
  have c: "length (needles [needle0]) = 1" "length (photos [needle0]) = 0"
    by (simp_all add: needles_def photos_def sample_types)
  have one: "targetRot (fst (layout TREE False [needle0] step_draws) ! 0) = E3 0 0 0"
    unfolding layout_TREE_nth [OF j]
    by (simp add: sample_types tree_needle_fst rank_def drop_draws_def step_draws_def)
  have two: "targetRot (fst (layout TREE False (fst (layout TREE False [needle0] step_draws))
                     (snd (layout TREE False [needle0] step_draws))) ! 0) = E3 (1 / 2) 0 (1 / 2)"
    unfolding layout_TREE_twice_nth [OF j] layout_TREE_snd c
    by (simp add: sample_types tree_needle_fst rank_def drop_draws_def step_draws_def)
  show ?thesis
    unfolding one two by (simp add: E3_def)
qed

end
